theory Spec2Isabelle
  imports Main "HOL-Library.AList" "HOL-Library.Multiset"
begin

section \<open>JavaScript values\<close>

text \<open>
  The scraper returns parsed JSON. A value is one of the JSON shapes, or \<open>undefined\<close>
  (what a read of a missing property yields). Numbers are integers: the identifiers and
  the Unix timestamps of the feed are integral. An object is the list of its own
  properties.
\<close>

datatype json =
    JUndefined
  | JNull
  | JBool bool
  | JNum int
  | JStr string
  | JArr "json list"
  | JObj "(string \<times> json) list"

datatype error = TypeError | RangeError | StorageError

text \<open>Truthiness, as \<open>if (x)\<close>, \<open>!x\<close> and \<open>x || y\<close> read it.\<close>

fun truthy :: "json \<Rightarrow> bool" where
  "truthy JUndefined = False"
| "truthy JNull = False"
| "truthy (JBool b) = b"
| "truthy (JNum n) = (n \<noteq> 0)"
| "truthy (JStr s) = (s \<noteq> [])"
| "truthy (JArr xs) = True"
| "truthy (JObj kvs) = True"

definition or_js :: "json \<Rightarrow> json \<Rightarrow> json" where
  "or_js a b = (if truthy a then a else b)"

fun nullish :: "json \<Rightarrow> bool" where
  "nullish JUndefined = True"
| "nullish JNull = True"
| "nullish v = False"

text \<open>
  \<open>x.name\<close> on a value that is neither \<open>null\<close> nor \<open>undefined\<close>, and \<open>x?.name\<close> on any
  value: an object yields its property, a string or an array its \<open>length\<close>, everything
  else \<open>undefined\<close>. None of the names the pipeline reads is an inherited method name.
  Where the source reads \<open>x.name\<close> and \<open>x\<close> may be \<open>null\<close> or \<open>undefined\<close>, the model
  tests \<open>nullish x\<close> first and raises \<open>TypeError\<close>.
\<close>

fun getProp :: "json \<Rightarrow> string \<Rightarrow> json" where
  "getProp (JObj kvs) name = (case map_of kvs name of Some v \<Rightarrow> v | None \<Rightarrow> JUndefined)"
| "getProp (JStr s) name = (if name = ''length'' then JNum (int (length s)) else JUndefined)"
| "getProp (JArr xs) name = (if name = ''length'' then JNum (int (length xs)) else JUndefined)"
| "getProp v name = JUndefined"

text \<open>\<open>x[0]\<close> on a value that is not nullish, and \<open>x?.[0]\<close> on any value.\<close>

fun idx0 :: "json \<Rightarrow> json" where
  "idx0 (JArr xs) = (case xs of [] \<Rightarrow> JUndefined | x # _ \<Rightarrow> x)"
| "idx0 (JStr s) = (case s of [] \<Rightarrow> JUndefined | c # _ \<Rightarrow> JStr [c])"
| "idx0 (JObj kvs) = (case map_of kvs ''0'' of Some v \<Rightarrow> v | None \<Rightarrow> JUndefined)"
| "idx0 v = JUndefined"

fun is_string :: "json \<Rightarrow> bool" where
  "is_string (JStr s) = True"
| "is_string v = False"

fun is_number :: "json \<Rightarrow> bool" where
  "is_number (JNum n) = True"
| "is_number v = False"

text \<open>\<open>typeof v === 'object'\<close> (which holds of \<open>null\<close> too).\<close>

fun is_object :: "json \<Rightarrow> bool" where
  "is_object JNull = True"
| "is_object (JArr xs) = True"
| "is_object (JObj kvs) = True"
| "is_object v = False"

subsection \<open>Library functions taken as parameters\<close>

text \<open>
  \<open>parseDate s\<close> is the time value of \<open>new Date(s)\<close> for a string, \<open>None\<close> when it is
  \<open>NaN\<close>; \<open>strToNum s\<close> is \<open>Number(s)\<close>, \<open>None\<close> when it is \<open>NaN\<close>; \<open>numToStr n\<close> is
  \<open>String(n)\<close> for a number \<open>n\<close>; \<open>trim\<close> and \<open>toLowerCase\<close> are the methods of
  \<open>String.prototype\<close>.
\<close>

record jslib =
  parseDate :: "string \<Rightarrow> int option"
  strToNum :: "string \<Rightarrow> int option"
  numToStr :: "int \<Rightarrow> string"
  trim :: "string \<Rightarrow> string"
  toLowerCase :: "string \<Rightarrow> string"

subsection \<open>Conversion to string\<close>

fun join_comma :: "string list \<Rightarrow> string" where
  "join_comma [] = []"
| "join_comma [s] = s"
| "join_comma (s # t # ss) = s @ '','' @ join_comma (t # ss)"

definition consE :: "'a \<Rightarrow> error + 'a list \<Rightarrow> error + 'a list" where
  "consE x r = (case r of Inl err \<Rightarrow> Inl err | Inr xs \<Rightarrow> Inr (x # xs))"

text \<open>The results of a sequence of evaluations, or the first error among them.\<close>

fun sequenceE :: "(error + 'a) list \<Rightarrow> error + 'a list" where
  "sequenceE [] = Inr []"
| "sequenceE (x # xs) = (case x of Inl err \<Rightarrow> Inl err | Inr v \<Rightarrow> consE v (sequenceE xs))"

text \<open>
  \<open>String(v)\<close> and \<open>`${v}`\<close>. An array joins its elements with commas, \<open>null\<close> and
  \<open>undefined\<close> elements as the empty string; converting it throws when converting one
  of its elements does. An object is converted by calling its \<open>toString\<close> and, failing
  that, its \<open>valueOf\<close>. An object of a parsed response holds data only, so a property
  \<open>toString\<close> of its own is not a function and is passed over; \<open>valueOf\<close>, when
  inherited, returns the object itself and, as a property of its own, is not a function
  either: the conversion throws \<open>TypeError\<close>. Without a \<open>toString\<close> of its own the
  inherited one gives \<open>[object Object]\<close>.
\<close>

fun toStr :: "jslib \<Rightarrow> json \<Rightarrow> error + string" where
  "toStr lib JUndefined = Inr ''undefined''"
| "toStr lib JNull = Inr ''null''"
| "toStr lib (JBool b) = Inr (if b then ''true'' else ''false'')"
| "toStr lib (JNum n) = Inr (numToStr lib n)"
| "toStr lib (JStr s) = Inr s"
| "toStr lib (JArr xs) =
     (case sequenceE (map (\<lambda>x. if nullish x then Inr [] else toStr lib x) xs) of
        Inl err \<Rightarrow> Inl err
      | Inr ss \<Rightarrow> Inr (join_comma ss))"
| "toStr lib (JObj kvs) =
     (if ''toString'' \<in> fst ` set kvs then Inl TypeError else Inr ''[object Object]'')"

subsection \<open>String methods\<close>

definition is_digit :: "char \<Rightarrow> bool" where
  "is_digit c = (let n = (of_char c :: nat) in 48 \<le> n \<and> n \<le> 57)"

text \<open>\<open>s.split('T')[0]\<close>: the part before the first \<open>T\<close>.\<close>

definition split_T_0 :: "string \<Rightarrow> string" where
  "split_T_0 s = takeWhile (\<lambda>c. c \<noteq> CHR ''T'') s"

definition startsWith :: "string \<Rightarrow> string \<Rightarrow> bool" where
  "startsWith s p = (take (length p) s = p)"

text \<open>\<open>s.slice(-150)\<close>: the last 150 characters, the whole string when it is shorter.\<close>

definition slice_last :: "nat \<Rightarrow> string \<Rightarrow> string" where
  "slice_last n s = drop (length s - n) s"

subsection \<open>Dates and comparisons\<close>

definition maxTime :: int where
  "maxTime = 8640000000000000"

definition timeClip :: "int \<Rightarrow> int option" where
  "timeClip t = (if \<bar>t\<bar> \<le> maxTime then Some t else None)"

text \<open>
  \<open>new Date(v).getTime()\<close>; \<open>None\<close> is \<open>NaN\<close>. An array or an object is first converted
  to a primitive, which throws when its conversion to a string does.
\<close>

fun dateTime :: "jslib \<Rightarrow> json \<Rightarrow> error + int option" where
  "dateTime lib (JStr s) = Inr (parseDate lib s)"
| "dateTime lib (JNum n) = Inr (timeClip n)"
| "dateTime lib (JBool b) = Inr (Some (if b then 1 else 0))"
| "dateTime lib JNull = Inr (Some 0)"
| "dateTime lib JUndefined = Inr None"
| "dateTime lib v = (case toStr lib v of Inl err \<Rightarrow> Inl err | Inr s \<Rightarrow> Inr (parseDate lib s))"

text \<open>\<open>v > 0\<close>, with the same conversion of an array or an object.\<close>

fun gtZero :: "jslib \<Rightarrow> json \<Rightarrow> error + bool" where
  "gtZero lib (JNum n) = Inr (0 < n)"
| "gtZero lib (JBool b) = Inr b"
| "gtZero lib JNull = Inr False"
| "gtZero lib JUndefined = Inr False"
| "gtZero lib v =
     (case toStr lib v of
        Inl err \<Rightarrow> Inl err
      | Inr s \<Rightarrow> Inr (case strToNum lib s of Some n \<Rightarrow> 0 < n | None \<Rightarrow> False))"


section \<open>Dates and weeks\<close>

text \<open>
  An instant is a number of milliseconds since the epoch (UTC). A calendar date, which the
  source holds as the string \<open>YYYY-MM-DD\<close>, is the number of its day since 1970-01-01:
  the rendering is one-to-one, and the source only stores such strings and compares them
  for equality. \<open>tz\<close> is the offset of the server's local time from UTC in milliseconds,
  taken as constant.
\<close>

definition msPerDay :: int where
  "msPerDay = 86400000"

text \<open>\<open>new Date(t).toISOString().split('T')[0]\<close>.\<close>

definition utcDay :: "int \<Rightarrow> int" where
  "utcDay t = t div msPerDay"

text \<open>\<open>new Date(d + 'T00:00:00')\<close>: midnight of the date \<open>d\<close> in local time.\<close>

definition localMidnight :: "int \<Rightarrow> int \<Rightarrow> int" where
  "localMidnight tz d = d * msPerDay - tz"

text \<open>
  \<open>getWeekStart\<close>: \<open>getDay()\<close> is the local weekday (0 is Sunday; day 0 of the epoch is
  a Thursday), \<open>setDate\<close> moves the local date back to the Monday, \<open>setHours(0, 0, 0, 0)\<close>
  is local midnight, and the result is the UTC date of that instant.
\<close>

definition getWeekStart :: "int \<Rightarrow> int \<Rightarrow> int" where
  "getWeekStart tz t =
     (let localDay = (t + tz) div msPerDay;
          day = (localDay + 4) mod 7;
          monday = localDay - day + (if day = 0 then - 6 else 1)
      in utcDay (localMidnight tz monday))"

text \<open>
  The week boundary rule in the words of the specification, on a calendar date: a week
  starts on Monday; from a Sunday step back six days, from any other day step back
  \<open>weekday - 1\<close> days.
\<close>

definition specWeekStart :: "int \<Rightarrow> int" where
  "specWeekStart d = (let weekday = (d + 4) mod 7 in if weekday = 0 then d - 6 else d - (weekday - 1))"

section \<open>Canonical ads and stored state\<close>

text \<open>
  \<open>start_date\<close> of a canonical ad: \<open>null\<close>, the part of \<open>startDateFormatted\<close> before its
  \<open>T\<close>, the UTC date of a numeric \<open>startDate\<close>, or any other truthy \<open>startDate\<close> as it is.
\<close>

datatype sdate = NoDate | IsoPrefix string | EpochDay int | RawDate json

record canonical_ad =
  c_ad_id :: string
  c_brand_id :: int
  c_rank :: int
  c_creative_type :: string
  c_creative_url :: "string option"
  c_video_url :: "string option"
  c_ad_copy :: json
  c_headline :: json
  c_cta_type :: json
  c_start_date :: sdate
  c_ad_library_link :: string
  c_ai_format :: "string option"
  c_ai_hook :: "string option"
  c_ai_visual_style :: "string option"
  c_ai_angle :: "string option"

text \<open>
  A row of \<open>ad_vault\<close>. A nullable column is an \<open>option\<close>; a content column holds the
  value that was bound to it. The columns \<open>id\<close>, \<open>stored_creative_url\<close>, \<open>created_at\<close>
  and \<open>updated_at\<close> are left out: \<open>ad_id\<close> is \<open>UNIQUE NOT NULL\<close> and identifies the row.
\<close>

record stored_ad =
  ad_id :: string
  brand_id :: int
  date_scraped :: int
  rank :: int
  creative_type :: string
  creative_url :: "string option"
  video_url :: "string option"
  ad_copy :: json
  headline :: json
  cta_type :: json
  start_date :: sdate
  ad_library_link :: string
  ai_format :: "string option"
  ai_hook :: "string option"
  ai_visual_style :: "string option"
  ai_angle :: "string option"
  ai_raw_response :: "string option"
  ai_asset_type :: "string option"
  ai_visual_format :: "string option"
  ai_messaging_angle :: "string option"
  ai_hook_tactic :: "string option"
  ai_offer_type :: "string option"
  bookmarked :: "int option"
  first_seen :: "int option"
  last_seen :: "int option"
  weeks_in_top10 :: int

record snapshot_row =
  ws_brand_id :: int
  ws_ad_id :: string
  ws_week_start :: int
  ws_rank :: int

record brand_row =
  b_id :: int
  b_last_scraped :: "int option"

record db =
  ad_vault :: "stored_ad list"
  weekly_snapshots :: "snapshot_row list"
  brands :: "brand_row list"

text \<open>
  Every \<open>await db.execute(...)\<close> may reject. \<open>fails\<close> says which statements do; a statement
  is named by its kind and the \<open>ad_id\<close> it is about. \<open>js\<close> holds the library functions.
\<close>

datatype op =
    SelectBrand
  | SelectStale
  | DeleteSnapshots
  | DeleteStale
  | SelectExisting string
  | UpdateAd string
  | InsertAd string
  | UpsertSnapshot string
  | TouchBrand
  | ReplaceAd string

record env =
  now :: int
  tz :: int
  fails :: "op \<Rightarrow> bool"
  js :: jslib

definition guard :: "env \<Rightarrow> op \<Rightarrow> db \<Rightarrow> db \<times> (error + 'a) \<Rightarrow> db \<times> (error + 'a)" where
  "guard e opn d k = (if fails e opn then (d, Inl StorageError) else k)"

section \<open>The Reconciler: processScrapedAds\<close>

text \<open>\<open>brand_id = ? AND ad_id NOT IN (...) AND (bookmarked = 0 OR bookmarked IS NULL)\<close>.\<close>

definition staleAd :: "int \<Rightarrow> string list \<Rightarrow> stored_ad \<Rightarrow> bool" where
  "staleAd brandId newAdIds r =
     (brand_id r = brandId \<and> ad_id r \<notin> set newAdIds \<and> (bookmarked r = Some 0 \<or> bookmarked r = None))"

definition deleteStale :: "env \<Rightarrow> int \<Rightarrow> string list \<Rightarrow> db \<Rightarrow> db \<times> (error + unit)" where
  "deleteStale e brandId newAdIds d =
     guard e DeleteStale d
       (d\<lparr>ad_vault := filter (\<lambda>r. \<not> staleAd brandId newAdIds r) (ad_vault d)\<rparr>, Inr ())"

text \<open>The block under \<open>if (newAdIds.length > 0)\<close>.\<close>

definition cleanup :: "env \<Rightarrow> int \<Rightarrow> string list \<Rightarrow> db \<Rightarrow> db \<times> (error + unit)" where
  "cleanup e brandId newAdIds d =
     (if newAdIds \<noteq> [] then
        guard e SelectStale d
          (let adsToDelete = filter (staleAd brandId newAdIds) (ad_vault d);
               deleteIds = map ad_id adsToDelete
           in if adsToDelete \<noteq> [] then
                guard e DeleteSnapshots d
                  (deleteStale e brandId newAdIds
                     (d\<lparr>weekly_snapshots :=
                          filter (\<lambda>s. ws_ad_id s \<notin> set deleteIds) (weekly_snapshots d)\<rparr>))
              else deleteStale e brandId newAdIds d)
      else (d, Inr ()))"

text \<open>\<open>deleteIds\<close>, the identifiers the \<open>SELECT\<close> of the stale ads returns.\<close>

definition staleIds :: "int \<Rightarrow> string list \<Rightarrow> db \<Rightarrow> string list" where
  "staleIds brandId newAdIds d = map ad_id (filter (staleAd brandId newAdIds) (ad_vault d))"

datatype processed = ProcExisting stored_ad | ProcNew canonical_ad int int

definition coalesce :: "'a option \<Rightarrow> 'a option \<Rightarrow> 'a option" where
  "coalesce a b = (case a of Some x \<Rightarrow> Some x | None \<Rightarrow> b)"

text \<open>\<open>ad.start_date || null\<close>.\<close>

fun sdate_or_null :: "sdate \<Rightarrow> sdate" where
  "sdate_or_null (IsoPrefix s) = (if s = [] then NoDate else IsoPrefix s)"
| "sdate_or_null (RawDate v) = (if truthy v then RawDate v else NoDate)"
| "sdate_or_null v = v"

text \<open>\<open>x || null\<close> on a string or \<open>null\<close>.\<close>

definition str_or_null :: "string option \<Rightarrow> string option" where
  "str_or_null a = (case a of Some s \<Rightarrow> (if s = [] then None else Some s) | None \<Rightarrow> None)"

text \<open>
  The row of the \<open>INSERT INTO ad_vault\<close>, built from \<open>adValues\<close>; the columns it does
  not name take their defaults. \<open>String(ad.ad_copy || '')\<close>, \<open>String(ad.headline || '')\<close>
  and \<open>String(ad.cta_type || '')\<close> may throw. A \<open>start_date\<close> that is an object is bound
  as its \<open>JSON.stringify\<close>, which is one-to-one on the values of a parsed response and
  is kept here as the value itself.
\<close>

definition newRow :: "jslib \<Rightarrow> int \<Rightarrow> int \<Rightarrow> canonical_ad \<Rightarrow> error + stored_ad" where
  "newRow lib brandId today ad =
     (case toStr lib (or_js (c_ad_copy ad) (JStr [])) of Inl err \<Rightarrow> Inl err | Inr adCopy \<Rightarrow>
      case toStr lib (or_js (c_headline ad) (JStr [])) of Inl err \<Rightarrow> Inl err | Inr headlineText \<Rightarrow>
      case toStr lib (or_js (c_cta_type ad) (JStr [])) of Inl err \<Rightarrow> Inl err | Inr ctaType \<Rightarrow>
     Inr \<lparr>ad_id = c_ad_id ad,
      brand_id = brandId,
      date_scraped = today,
      rank = c_rank ad,
      creative_type = (if c_creative_type ad = [] then ''image'' else c_creative_type ad),
      creative_url = str_or_null (c_creative_url ad),
      video_url = str_or_null (c_video_url ad),
      ad_copy = JStr adCopy,
      headline = JStr headlineText,
      cta_type = JStr ctaType,
      start_date = sdate_or_null (c_start_date ad),
      ad_library_link = c_ad_library_link ad,
      ai_format = str_or_null (c_ai_format ad),
      ai_hook = str_or_null (c_ai_hook ad),
      ai_visual_style = str_or_null (c_ai_visual_style ad),
      ai_angle = str_or_null (c_ai_angle ad),
      ai_raw_response = None,
      ai_asset_type = None,
      ai_visual_format = None,
      ai_messaging_angle = None,
      ai_hook_tactic = None,
      ai_offer_type = None,
      bookmarked = Some 0,
      first_seen = Some today,
      last_seen = Some today,
      weeks_in_top10 = 1\<rparr>)"

text \<open>
  \<open>(lastWeek && lastWeek !== weekStart) ? existing.weeks_in_top10 + 1 : existing.weeks_in_top10\<close>,
  where \<open>lastWeek\<close> is \<open>null\<close> when \<open>last_seen\<close> is.
\<close>

definition nextWeeks :: "int \<Rightarrow> int \<Rightarrow> stored_ad \<Rightarrow> int" where
  "nextWeeks tzo weekStart existing =
     (let lastWeek = map_option (\<lambda>d. getWeekStart tzo (localMidnight tzo d)) (last_seen existing)
      in if lastWeek \<noteq> None \<and> lastWeek \<noteq> Some weekStart
         then weeks_in_top10 existing + 1 else weeks_in_top10 existing)"

text \<open>The \<open>UPDATE ad_vault ... WHERE ad_id = ?\<close>, on one row.\<close>

definition updateRow :: "int \<Rightarrow> int \<Rightarrow> canonical_ad \<Rightarrow> stored_ad \<Rightarrow> stored_ad" where
  "updateRow today weeksInTop10 ad r =
     (if ad_id r = c_ad_id ad then
        r\<lparr>last_seen := Some today,
          rank := c_rank ad,
          weeks_in_top10 := weeksInTop10,
          creative_url := coalesce (c_creative_url ad) (creative_url r),
          creative_type := c_creative_type ad,
          video_url := coalesce (c_video_url ad) (video_url r)\<rparr>
      else r)"

text \<open>\<open>INSERT OR REPLACE INTO weekly_snapshots\<close>, unique on \<open>(brand_id, ad_id, week_start)\<close>.\<close>

definition upsertSnapshot :: "int \<Rightarrow> string \<Rightarrow> int \<Rightarrow> int \<Rightarrow> snapshot_row list \<Rightarrow> snapshot_row list" where
  "upsertSnapshot brandId adId weekStart rk rows =
     filter (\<lambda>s. \<not> (ws_brand_id s = brandId \<and> ws_ad_id s = adId \<and> ws_week_start s = weekStart)) rows
       @ [\<lparr>ws_brand_id = brandId, ws_ad_id = adId, ws_week_start = weekStart, ws_rank = rk\<rparr>]"

definition recordSnapshot :: "env \<Rightarrow> int \<Rightarrow> int \<Rightarrow> canonical_ad \<Rightarrow> processed \<Rightarrow> db \<Rightarrow> db \<times> (error + processed)" where
  "recordSnapshot e brandId weekStart ad p d =
     guard e (UpsertSnapshot (c_ad_id ad)) d
       (d\<lparr>weekly_snapshots :=
            upsertSnapshot brandId (c_ad_id ad) weekStart (c_rank ad) (weekly_snapshots d)\<rparr>, Inr p)"

text \<open>
  One turn of the loop \<open>for (const ad of scrapedAds)\<close>. For a new ad \<open>adValues\<close> is
  built before the \<open>INSERT\<close> is sent.
\<close>

definition mergeAd :: "env \<Rightarrow> int \<Rightarrow> int \<Rightarrow> int \<Rightarrow> canonical_ad \<Rightarrow> db \<Rightarrow> db \<times> (error + processed)" where
  "mergeAd e brandId weekStart today ad d =
     guard e (SelectExisting (c_ad_id ad)) d
       (case find (\<lambda>r. ad_id r = c_ad_id ad) (ad_vault d) of
          Some existing \<Rightarrow>
            (let weeksInTop10 = nextWeeks (tz e) weekStart existing
             in guard e (UpdateAd (c_ad_id ad)) d
                  (recordSnapshot e brandId weekStart ad
                     (ProcExisting (existing\<lparr>rank := c_rank ad, last_seen := Some today,
                                             weeks_in_top10 := weeksInTop10\<rparr>))
                     (d\<lparr>ad_vault := map (updateRow today weeksInTop10 ad) (ad_vault d)\<rparr>)))
        | None \<Rightarrow>
            (case newRow (js e) brandId today ad of
               Inl err \<Rightarrow> (d, Inl err)
             | Inr adValues \<Rightarrow>
                 guard e (InsertAd (c_ad_id ad)) d
                   (recordSnapshot e brandId weekStart ad (ProcNew ad today today)
                      (d\<lparr>ad_vault := ad_vault d @ [adValues]\<rparr>))))"

fun mergeAll :: "env \<Rightarrow> int \<Rightarrow> int \<Rightarrow> int \<Rightarrow> canonical_ad list \<Rightarrow> db \<Rightarrow> processed list
    \<Rightarrow> db \<times> (error + processed list)" where
  "mergeAll e brandId weekStart today [] d processedAds = (d, Inr processedAds)"
| "mergeAll e brandId weekStart today (ad # rest) d processedAds =
     (case mergeAd e brandId weekStart today ad d of
        (d', Inl err) \<Rightarrow> (d', Inl err)
      | (d', Inr p) \<Rightarrow> mergeAll e brandId weekStart today rest d' (processedAds @ [p]))"

definition touchBrand :: "env \<Rightarrow> int \<Rightarrow> db \<Rightarrow> db" where
  "touchBrand e brandId d =
     d\<lparr>brands := map (\<lambda>b. if b_id b = brandId then b\<lparr>b_last_scraped := Some (now e)\<rparr> else b) (brands d)\<rparr>"

text \<open>
  \<open>processScrapedAds\<close> returns the state it leaves behind and either the error it threw or
  the array of processed ads. The two reads of the clock are one instant \<open>now\<close>.
\<close>

definition processScrapedAds :: "env \<Rightarrow> int \<Rightarrow> canonical_ad list \<Rightarrow> db \<Rightarrow> db \<times> (error + processed list)" where
  "processScrapedAds e brandId scrapedAds d =
     guard e SelectBrand d
       (if brandId \<notin> b_id ` set (brands d) then (d, Inr [])
        else
          (let weekStart = getWeekStart (tz e) (now e);
               today = utcDay (now e);
               newAdIds = map c_ad_id scrapedAds
           in case cleanup e brandId newAdIds d of
                (d1, Inl err) \<Rightarrow> (d1, Inl err)
              | (d1, Inr u) \<Rightarrow>
                  (case mergeAll e brandId weekStart today scrapedAds d1 [] of
                     (d2, Inl err) \<Rightarrow> (d2, Inl err)
                   | (d2, Inr processedAds) \<Rightarrow>
                       guard e TouchBrand d2 (touchBrand e brandId d2, Inr processedAds))))"

section \<open>The scheduled path: runScheduledScrapeAll\<close>

text \<open>
  The row of the \<open>INSERT OR REPLACE INTO ad_vault\<close>: \<open>first_seen\<close> and \<open>weeks_in_top10\<close>
  come from the row it replaces, every column it does not name takes its default.
\<close>

definition scheduledRow :: "int \<Rightarrow> int \<Rightarrow> canonical_ad \<Rightarrow> stored_ad option \<Rightarrow> stored_ad" where
  "scheduledRow brandId today ad old =
     \<lparr>ad_id = c_ad_id ad,
      brand_id = brandId,
      date_scraped = today,
      rank = c_rank ad,
      creative_type = c_creative_type ad,
      creative_url = c_creative_url ad,
      video_url = c_video_url ad,
      ad_copy = c_ad_copy ad,
      headline = c_headline ad,
      cta_type = c_cta_type ad,
      start_date = c_start_date ad,
      ad_library_link = c_ad_library_link ad,
      ai_format = None,
      ai_hook = None,
      ai_visual_style = None,
      ai_angle = None,
      ai_raw_response = None,
      ai_asset_type = None,
      ai_visual_format = None,
      ai_messaging_angle = None,
      ai_hook_tactic = None,
      ai_offer_type = None,
      bookmarked = Some 0,
      first_seen = Some (case Option.bind old first_seen of Some f \<Rightarrow> f | None \<Rightarrow> today),
      last_seen = Some today,
      weeks_in_top10 = (case old of Some r \<Rightarrow> weeks_in_top10 r | None \<Rightarrow> 0) + 1\<rparr>"

text \<open>One turn of \<open>for (const ad of transformed)\<close>: the statement, its error caught and ignored.\<close>

definition scheduledStoreAd :: "env \<Rightarrow> int \<Rightarrow> canonical_ad \<Rightarrow> db \<Rightarrow> db" where
  "scheduledStoreAd e brandId ad d =
     (if fails e (ReplaceAd (c_ad_id ad)) then d
      else d\<lparr>ad_vault :=
               filter (\<lambda>r. ad_id r \<noteq> c_ad_id ad) (ad_vault d)
                 @ [scheduledRow brandId (utcDay (now e)) ad
                      (find (\<lambda>r. ad_id r = c_ad_id ad) (ad_vault d))]\<rparr>)"

fun scheduledStore :: "env \<Rightarrow> int \<Rightarrow> canonical_ad list \<Rightarrow> db \<Rightarrow> db" where
  "scheduledStore e brandId [] d = d"
| "scheduledStore e brandId (ad # rest) d = scheduledStore e brandId rest (scheduledStoreAd e brandId ad d)"

section \<open>The tagging state\<close>

text \<open>Truthiness of a nullable text column.\<close>

definition present :: "string option \<Rightarrow> bool" where
  "present a = (case a of Some s \<Rightarrow> s \<noteq> [] | None \<Rightarrow> False)"

text \<open>The test that opens \<open>analyzeAdCreative\<close>: with all five tags the ad is not analysed again.\<close>

definition alreadyAnalyzed :: "stored_ad \<Rightarrow> bool" where
  "alreadyAnalyzed ad =
     (present (ai_asset_type ad) \<and> present (ai_visual_format ad) \<and> present (ai_messaging_angle ad)
      \<and> present (ai_hook_tactic ad) \<and> present (ai_offer_type ad))"

record analysis =
  asset_type :: "string option"
  visual_format :: "string option"
  messaging_angle :: "string option"
  hook_tactic :: "string option"
  offer_type :: "string option"

text \<open>\<open>analyzeAdCreative\<close>; \<open>provider\<close> is the call to the tagging service.\<close>

definition analyzeAdCreative :: "(stored_ad \<Rightarrow> analysis) \<Rightarrow> stored_ad \<Rightarrow> analysis" where
  "analyzeAdCreative provider ad =
     (if alreadyAnalyzed ad then
        \<lparr>asset_type = ai_asset_type ad, visual_format = ai_visual_format ad,
         messaging_angle = ai_messaging_angle ad, hook_tactic = ai_hook_tactic ad,
         offer_type = ai_offer_type ad\<rparr>
      else provider ad)"

text \<open>
  The query of \<open>runBatchAnalysis\<close>, of \<open>/api/ads/unanalyzed/count\<close> and of
  \<open>/api/ads/analyze-batch\<close>: \<open>WHERE ai_asset_type IS NULL OR ai_asset_type = ''\<close>.
\<close>

definition unanalyzedAds :: "db \<Rightarrow> stored_ad list" where
  "unanalyzedAds d = filter (\<lambda>r. ai_asset_type r = None \<or> ai_asset_type r = Some []) (ad_vault d)"


section \<open>The Deduplicator: transformApifyResults\<close>

subsection \<open>Signals read from one raw item\<close>

text \<open>\<open>item.adArchiveID || item.adArchiveId || item.adid\<close>, on an item that is not nullish.\<close>

definition adIdOf :: "json \<Rightarrow> json" where
  "adIdOf item =
     or_js (or_js (getProp item ''adArchiveID'') (getProp item ''adArchiveId'')) (getProp item ''adid'')"

text \<open>\<open>item.snapshot || {}\<close>.\<close>

definition snapshotOf :: "json \<Rightarrow> json" where
  "snapshotOf item = or_js (getProp item ''snapshot'') (JObj [])"

text \<open>
  The regular expression \<open>/\/(\d{10,}_\d+[^\/\?]*)/\<close>. After a slash it needs ten or more
  digits (all the digits there are, since an underscore must follow them), an underscore
  and a digit; the group then runs up to the next slash or question mark. \<open>matchAt\<close>
  is given the text behind a slash, \<open>regexMatch\<close> finds the leftmost slash that matches.
\<close>

definition matchAt :: "string \<Rightarrow> string option" where
  "matchAt s =
     (let ds = takeWhile is_digit s; rest = dropWhile is_digit s
      in case rest of
           u # d # _ \<Rightarrow>
             (if 10 \<le> length ds \<and> u = CHR ''_'' \<and> is_digit d
              then Some (takeWhile (\<lambda>c. c \<noteq> CHR ''/'' \<and> c \<noteq> CHR ''?'') s) else None)
         | _ \<Rightarrow> None)"

fun regexMatch :: "string \<Rightarrow> string option" where
  "regexMatch [] = None"
| "regexMatch (c # s) =
     (if c = CHR ''/'' then (case matchAt s of Some m \<Rightarrow> Some m | None \<Rightarrow> regexMatch s)
      else regexMatch s)"

text \<open>\<open>getMediaFingerprint\<close>: \<open>url.match\<close> is not a function unless \<open>url\<close> is a string.\<close>

definition getMediaFingerprint :: "json \<Rightarrow> error + string" where
  "getMediaFingerprint url =
     (if \<not> truthy url then Inr []
      else case url of
             JStr s \<Rightarrow> Inr (case regexMatch s of Some m \<Rightarrow> m | None \<Rightarrow> slice_last 150 s)
           | _ \<Rightarrow> Inl TypeError)"

text \<open>\<open>videoUrl || imageUrl\<close> of the media pass.\<close>

definition mediaUrlOf :: "json \<Rightarrow> json" where
  "mediaUrlOf item =
     (let snapshot = snapshotOf item;
          firstVideo = idx0 (getProp snapshot ''videos'');
          videoUrl = or_js (or_js (getProp firstVideo ''video_hd_url'') (getProp firstVideo ''video_sd_url'')) (JStr []);
          firstImage = idx0 (getProp snapshot ''images'');
          imageUrl = (if is_string firstImage then firstImage
                      else or_js (or_js (getProp firstImage ''resizedImageUrl'') (getProp firstImage ''url'')) (JStr []))
      in or_js videoUrl imageUrl)"

definition fingerprintOf :: "json \<Rightarrow> error + string" where
  "fingerprintOf item = (if nullish item then Inl TypeError else getMediaFingerprint (mediaUrlOf item))"

text \<open>\<open>startTimestamp\<close>; \<open>None\<close> is \<open>NaN\<close>.\<close>

definition startTimestampOf :: "jslib \<Rightarrow> json \<Rightarrow> error + int option" where
  "startTimestampOf lib item =
     (if truthy (getProp item ''startDateFormatted'') then dateTime lib (getProp item ''startDateFormatted'')
      else case getProp item ''startDate'' of JNum n \<Rightarrow> Inr (Some (n * 1000)) | _ \<Rightarrow> Inr (Some 0))"

text \<open>
  The headline of the third pass: \<open>trim\<close> is not a function unless the first truthy
  title is a string.
\<close>

definition firstCardOf :: "json \<Rightarrow> json" where
  "firstCardOf item = or_js (idx0 (or_js (getProp (snapshotOf item) ''cards'') (JArr []))) (JObj [])"

text \<open>\<open>firstCard.title || snapshot.title || snapshot.link_description || ''\<close>.\<close>

definition titleOf :: "json \<Rightarrow> json" where
  "titleOf item =
     or_js (or_js (or_js (getProp (firstCardOf item) ''title'') (getProp (snapshotOf item) ''title''))
              (getProp (snapshotOf item) ''link_description'')) (JStr [])"

definition headlineOf :: "jslib \<Rightarrow> json \<Rightarrow> error + string" where
  "headlineOf lib item =
     (if nullish item then Inl TypeError
      else case titleOf item of JStr s \<Rightarrow> Inr (toLowerCase lib (trim lib s)) | _ \<Rightarrow> Inl TypeError)"

subsection \<open>The three passes\<close>

text \<open>
  \<open>seenIds.has(adId)\<close>: a \<open>Set\<close> compares primitives by value and type; two objects or
  arrays of a parsed response are never the same object.
\<close>

fun sameValueZero :: "json \<Rightarrow> json \<Rightarrow> bool" where
  "sameValueZero (JArr xs) b = False"
| "sameValueZero (JObj kvs) b = False"
| "sameValueZero a b = (a = b)"

text \<open>The filter \<open>uniqueById\<close>; \<open>seenIds\<close> is the set built so far.\<close>

fun idPass :: "json list \<Rightarrow> json list \<Rightarrow> error + json list" where
  "idPass [] seenIds = Inr []"
| "idPass (item # rest) seenIds =
     (if nullish item then Inl TypeError
      else
        (let adId = adIdOf item
         in if \<not> truthy adId then consE item (idPass rest seenIds)
            else if \<exists>s \<in> set seenIds. sameValueZero s adId then idPass rest seenIds
            else consE item (idPass rest (seenIds @ [adId]))))"

text \<open>
  The keys of the two \<open>Map\<close>s: \<open>media:...\<close>, \<open>headline:...\<close>, \<open>id:...\<close> with the item's
  identifier, and \<open>id:unique_...\<close> with \<open>Date.now()\<close> and \<open>Math.random()\<close>, which is
  taken to be a new key at every draw: \<open>UniqueKey n\<close> is the key drawn for the \<open>n\<close>-th
  item of the pass. A \<open>Map\<close> keeps its keys in the order of their first insertion, and
  \<open>set\<close> on a key it has replaces the value in place: an association list under
  \<open>AList.update\<close>.
\<close>

datatype key = MediaKey string | HeadlineKey string | IdKey string | UniqueKey nat

type_synonym grouped = "(key \<times> (json \<times> int option)) list"

text \<open>The key \<open>`id:${adId}`\<close>; the template throws when the identifier has no string.\<close>

definition fallbackKey :: "jslib \<Rightarrow> nat \<Rightarrow> json \<Rightarrow> error + key" where
  "fallbackKey lib n item =
     (let adId = adIdOf item
      in if truthy adId then (case toStr lib adId of Inl err \<Rightarrow> Inl err | Inr s \<Rightarrow> Inr (IdKey s))
         else Inr (UniqueKey n))"

text \<open>\<open>startTimestamp > 0 && startTimestamp < existing.startTimestamp\<close>.\<close>

definition earlier :: "int option \<Rightarrow> int option \<Rightarrow> bool" where
  "earlier startTimestamp existingTimestamp =
     (case (startTimestamp, existingTimestamp) of
        (Some t, Some x) \<Rightarrow> 0 < t \<and> t < x
      | _ \<Rightarrow> False)"

text \<open>
  The \<open>if\<close> that ends the body of the two loops, once the grouping string \<open>g\<close> and the
  timestamp of the item are known.
\<close>

definition groupStep :: "jslib \<Rightarrow> (string \<Rightarrow> key) \<Rightarrow> string \<Rightarrow> nat \<Rightarrow> json \<Rightarrow> int option \<Rightarrow> grouped
    \<Rightarrow> error + grouped" where
  "groupStep lib mk g n item startTimestamp m =
     (if g \<noteq> [] then
        Inr (case map_of m (mk g) of
               None \<Rightarrow> AList.update (mk g) (item, startTimestamp) m
             | Some existing \<Rightarrow>
                 (if earlier startTimestamp (snd existing)
                  then AList.update (mk g) (item, startTimestamp) m else m))
      else (case fallbackKey lib n item of
              Inl err \<Rightarrow> Inl err
            | Inr k \<Rightarrow> Inr (AList.update k (item, startTimestamp) m)))"

fun mediaLoop :: "jslib \<Rightarrow> json list \<Rightarrow> nat \<Rightarrow> grouped \<Rightarrow> error + grouped" where
  "mediaLoop lib [] n mediaGrouped = Inr mediaGrouped"
| "mediaLoop lib (item # rest) n mediaGrouped =
     (case fingerprintOf item of
        Inl err \<Rightarrow> Inl err
      | Inr mediaFingerprint \<Rightarrow>
          (case startTimestampOf lib item of
             Inl err \<Rightarrow> Inl err
           | Inr startTimestamp \<Rightarrow>
               (case groupStep lib MediaKey mediaFingerprint n item startTimestamp mediaGrouped of
                  Inl err \<Rightarrow> Inl err
                | Inr mediaGrouped' \<Rightarrow> mediaLoop lib rest (Suc n) mediaGrouped')))"

fun headlineLoop :: "jslib \<Rightarrow> json list \<Rightarrow> nat \<Rightarrow> grouped \<Rightarrow> error + grouped" where
  "headlineLoop lib [] n headlineGrouped = Inr headlineGrouped"
| "headlineLoop lib (item # rest) n headlineGrouped =
     (case headlineOf lib item of
        Inl err \<Rightarrow> Inl err
      | Inr normHeadline \<Rightarrow>
          (case startTimestampOf lib item of
             Inl err \<Rightarrow> Inl err
           | Inr startTimestamp \<Rightarrow>
               (case groupStep lib HeadlineKey normHeadline n item startTimestamp headlineGrouped of
                  Inl err \<Rightarrow> Inl err
                | Inr headlineGrouped' \<Rightarrow> headlineLoop lib rest (Suc n) headlineGrouped')))"

text \<open>\<open>Array.from(m.values()).map(v => v.item)\<close>.\<close>

definition itemsOf :: "grouped \<Rightarrow> json list" where
  "itemsOf m = map (\<lambda>kv. fst (snd kv)) m"

text \<open>\<open>uniqueResults\<close>, the survivors of the three passes, before the cut to twenty.\<close>

definition dedupe :: "jslib \<Rightarrow> json list \<Rightarrow> error + json list" where
  "dedupe lib apifyResults =
     (case idPass apifyResults [] of
        Inl err \<Rightarrow> Inl err
      | Inr uniqueById \<Rightarrow>
          (case mediaLoop lib uniqueById 0 [] of
             Inl err \<Rightarrow> Inl err
           | Inr mediaGrouped \<Rightarrow>
               (case headlineLoop lib (itemsOf mediaGrouped) 0 [] of
                  Inl err \<Rightarrow> Inl err
                | Inr headlineGrouped \<Rightarrow> Inr (itemsOf headlineGrouped))))"

subsection \<open>From a surviving item to a canonical ad\<close>

definition extractUrl :: "json \<Rightarrow> json" where
  "extractUrl val =
     (if \<not> truthy val then JNull
      else if is_string val then val
      else if is_object val then
        or_js (or_js (or_js (or_js (or_js (or_js (or_js (or_js (or_js (or_js (or_js
          (getProp val ''videoHdUrl'') (getProp val ''video_hd_url''))
          (getProp val ''videoSdUrl'')) (getProp val ''video_sd_url''))
          (getProp val ''videoPreviewImageUrl'')) (getProp val ''video_preview_image_url''))
          (getProp val ''resizedImageUrl'')) (getProp val ''resized_image_url''))
          (getProp val ''originalImageUrl'')) (getProp val ''original_image_url''))
          (getProp val ''url'')) JNull
      else JNull)"

definition extractVideoPreviewUrl :: "json \<Rightarrow> json" where
  "extractVideoPreviewUrl videoObj =
     (if \<not> truthy videoObj then JNull
      else if is_object videoObj then
        or_js (or_js (getProp videoObj ''videoPreviewImageUrl'') (getProp videoObj ''video_preview_image_url'')) JNull
      else JNull)"

text \<open>\<open>v && v.length > 0\<close>.\<close>

definition nonEmpty :: "jslib \<Rightarrow> json \<Rightarrow> error + bool" where
  "nonEmpty lib v = (if truthy v then gtZero lib (getProp v ''length'') else Inr False)"

text \<open>The cascade that resolves \<open>(creativeUrl, videoUrl, creativeType)\<close>.\<close>

definition resolveMedia :: "jslib \<Rightarrow> json \<Rightarrow> json \<Rightarrow> error + json \<times> json \<times> string" where
  "resolveMedia lib snapshot firstCard =
     (if truthy (getProp firstCard ''videoHdUrl'') \<or> truthy (getProp firstCard ''videoSdUrl'') then
        Inr (or_js (or_js (extractUrl (getProp firstCard ''videoPreviewImageUrl''))
                          (extractUrl (getProp firstCard ''resizedImageUrl'')))
                   (extractUrl (getProp firstCard ''originalImageUrl'')),
             or_js (extractUrl (getProp firstCard ''videoHdUrl'')) (extractUrl (getProp firstCard ''videoSdUrl'')),
             ''video'')
      else if truthy (getProp firstCard ''resizedImageUrl'') \<or> truthy (getProp firstCard ''originalImageUrl'') then
        Inr (or_js (extractUrl (getProp firstCard ''resizedImageUrl''))
                   (extractUrl (getProp firstCard ''originalImageUrl'')),
             JNull, ''image'')
      else
        (case nonEmpty lib (getProp snapshot ''videos'') of
           Inl err \<Rightarrow> Inl err
         | Inr True \<Rightarrow>
             (let firstVideo = idx0 (getProp snapshot ''videos'')
              in Inr (or_js (or_js (extractVideoPreviewUrl firstVideo) (extractUrl (idx0 (getProp snapshot ''images''))))
                        JNull,
                      extractUrl firstVideo, ''video''))
         | Inr False \<Rightarrow>
             (case nonEmpty lib (getProp snapshot ''images'') of
                Inl err \<Rightarrow> Inl err
              | Inr True \<Rightarrow> Inr (extractUrl (idx0 (getProp snapshot ''images'')), JNull, ''image'')
              | Inr False \<Rightarrow> Inr (JNull, JNull, ''image''))))"

definition possibleMediaFields :: "json \<Rightarrow> json \<Rightarrow> json \<Rightarrow> json list" where
  "possibleMediaFields item snapshot firstCard =
     map (getProp item) [''imageUrl'', ''image_url'', ''thumbnailUrl'', ''thumbnail_url'',
                         ''mediaUrl'', ''media_url'', ''previewUrl'', ''preview_url'']
     @ map (getProp snapshot) [''imageUrl'', ''image_url'', ''thumbnailUrl'', ''thumbnail_url'',
                               ''mediaUrl'', ''media_url'', ''previewUrl'', ''preview_url'']
     @ map (getProp firstCard) [''imageUrl'', ''image_url'', ''thumbnailUrl'', ''thumbnail_url'']"

text \<open>\<open>field && typeof field === 'string' && field.startsWith('http')\<close>.\<close>

definition httpField :: "json \<Rightarrow> bool" where
  "httpField field = (case field of JStr s \<Rightarrow> s \<noteq> [] \<and> startsWith s ''http'' | _ \<Rightarrow> False)"

text \<open>The last two tests on a URL: a truthy value that is not a string becomes \<open>null\<close>.\<close>

definition urlOrNull :: "json \<Rightarrow> string option" where
  "urlOrNull u = (case u of JStr s \<Rightarrow> Some s | _ \<Rightarrow> None)"

definition adCopyOf :: "json \<Rightarrow> json \<Rightarrow> json" where
  "adCopyOf snapshot firstCard =
     (if is_string (getProp firstCard ''body'') then getProp firstCard ''body''
      else if truthy (getProp (getProp firstCard ''body'') ''text'') then getProp (getProp firstCard ''body'') ''text''
      else if is_string (getProp snapshot ''body'') then getProp snapshot ''body''
      else if truthy (getProp (getProp snapshot ''body'') ''text'') then getProp (getProp snapshot ''body'') ''text''
      else JStr [])"

text \<open>
  \<open>startDate\<close>: \<open>split\<close> is not a function unless \<open>startDateFormatted\<close> is a string, and
  \<open>toISOString\<close> throws \<open>RangeError\<close> on a time value out of range.
\<close>

definition startDateOf :: "json \<Rightarrow> error + sdate" where
  "startDateOf item =
     (if truthy (getProp item ''startDateFormatted'') then
        (case getProp item ''startDateFormatted'' of
           JStr s \<Rightarrow> Inr (IsoPrefix (split_T_0 s))
         | _ \<Rightarrow> Inl TypeError)
      else
        (case getProp item ''startDate'' of
           JNum n \<Rightarrow> (if \<bar>n * 1000\<bar> \<le> maxTime then Inr (EpochDay (utcDay (n * 1000))) else Inl RangeError)
         | v \<Rightarrow> (if truthy v then Inr (RawDate v) else Inr NoDate)))"

text \<open>
  The identifier of the canonical ad as a string, \<open>`${adId}`\<close> and \<open>String(adId)\<close> for
  \<open>adId = item.adArchiveID || item.adArchiveId || item.adid || `apify_${Date.now()}_${index}`\<close>;
  \<open>nowMs\<close> is \<open>Date.now()\<close>.
\<close>

definition adIdString :: "jslib \<Rightarrow> int \<Rightarrow> nat \<Rightarrow> json \<Rightarrow> error + string" where
  "adIdString lib nowMs index item =
     (if truthy (adIdOf item) then toStr lib (adIdOf item)
      else Inr (''apify_'' @ numToStr lib nowMs @ ''_'' @ numToStr lib (int index)))"

text \<open>
  The function mapped over \<open>top20Unique\<close>. The identifier is converted to a string three
  times: in the message logged when no media is found, in the library link and in
  \<open>ad_id\<close>; the start date is computed between the first and the second.
\<close>

definition toCanonical :: "jslib \<Rightarrow> int \<Rightarrow> int \<Rightarrow> nat \<Rightarrow> json \<Rightarrow> error + canonical_ad" where
  "toCanonical lib nowMs brandId index item =
     (if nullish item then Inl TypeError
      else
        (let snapshot = snapshotOf item;
             firstCard = firstCardOf item
         in case resolveMedia lib snapshot firstCard of
              Inl err \<Rightarrow> Inl err
            | Inr (creativeUrl0, videoUrl, creativeType) \<Rightarrow>
                (let creativeUrl =
                       (if \<not> truthy creativeUrl0 \<and> \<not> truthy videoUrl then
                          (case find httpField (possibleMediaFields item snapshot firstCard) of
                             Some field \<Rightarrow> field | None \<Rightarrow> creativeUrl0)
                        else creativeUrl0)
                 in if \<not> truthy creativeUrl0 \<and> \<not> truthy videoUrl \<and> \<not> truthy creativeUrl
                       \<and> isl (adIdString lib nowMs index item)
                    then Inl TypeError
                    else
                      (case startDateOf item of
                         Inl err \<Rightarrow> Inl err
                       | Inr startDate \<Rightarrow>
                           (case adIdString lib nowMs index item of
                              Inl err \<Rightarrow> Inl err
                            | Inr adId \<Rightarrow>
                                Inr \<lparr>c_ad_id = adId,
                                     c_brand_id = brandId,
                                     c_rank = int index + 1,
                                     c_creative_type = creativeType,
                                     c_creative_url = urlOrNull creativeUrl,
                                     c_video_url = urlOrNull videoUrl,
                                     c_ad_copy = adCopyOf snapshot firstCard,
                                     c_headline = or_js (or_js (getProp firstCard ''title'') (getProp snapshot ''title''))
                                                    (JStr []),
                                     c_cta_type = or_js (or_js (or_js (getProp firstCard ''ctaText'')
                                                                  (getProp firstCard ''ctaType''))
                                                           (getProp snapshot ''ctaText'')) (JStr []),
                                     c_start_date = startDate,
                                     c_ad_library_link = ''https://www.facebook.com/ads/library/?id='' @ adId,
                                     c_ai_format = None,
                                     c_ai_hook = None,
                                     c_ai_visual_style = None,
                                     c_ai_angle = None\<rparr>)))))"

fun mapCanonical :: "jslib \<Rightarrow> int \<Rightarrow> int \<Rightarrow> nat \<Rightarrow> json list \<Rightarrow> error + canonical_ad list" where
  "mapCanonical lib nowMs brandId index [] = Inr []"
| "mapCanonical lib nowMs brandId index (item # rest) =
     (case toCanonical lib nowMs brandId index item of
        Inl err \<Rightarrow> Inl err
      | Inr ad \<Rightarrow> consE ad (mapCanonical lib nowMs brandId (Suc index) rest))"

definition transformApifyResults :: "jslib \<Rightarrow> int \<Rightarrow> json list \<Rightarrow> int \<Rightarrow> error + canonical_ad list" where
  "transformApifyResults lib nowMs apifyResults brandId =
     (case dedupe lib apifyResults of
        Inl err \<Rightarrow> Inl err
      | Inr uniqueResults \<Rightarrow> mapCanonical lib nowMs brandId 0 (take 20 uniqueResults))"


section \<open>Notions used to state the properties of the Deduplicator\<close>

text \<open>
  The two grouping loops are one loop, given the signal \<open>sig\<close> read from an item (its
  fingerprint, its headline) and the key \<open>mk\<close> made from it.
\<close>

fun groupLoop :: "(string \<Rightarrow> key) \<Rightarrow> (json \<Rightarrow> error + string) \<Rightarrow> jslib \<Rightarrow> json list \<Rightarrow> nat \<Rightarrow> grouped
    \<Rightarrow> error + grouped" where
  "groupLoop mk sig lib [] n m = Inr m"
| "groupLoop mk sig lib (item # rest) n m =
     (case sig item of
        Inl err \<Rightarrow> Inl err
      | Inr g \<Rightarrow>
          (case startTimestampOf lib item of
             Inl err \<Rightarrow> Inl err
           | Inr ts \<Rightarrow>
               (case groupStep lib mk g n item ts m of
                  Inl err \<Rightarrow> Inl err
                | Inr m1 \<Rightarrow> groupLoop mk sig lib rest (Suc n) m1)))"

text \<open>The key under which an item with signal \<open>g\<close> is stored.\<close>

definition stepKey :: "jslib \<Rightarrow> (string \<Rightarrow> key) \<Rightarrow> string \<Rightarrow> nat \<Rightarrow> json \<Rightarrow> error + key" where
  "stepKey lib mk g n item = (if g \<noteq> [] then Inr (mk g) else fallbackKey lib n item)"

text \<open>The signal as a string, empty when reading it raises.\<close>

definition sigStr :: "(json \<Rightarrow> error + string) \<Rightarrow> json \<Rightarrow> string" where
  "sigStr sig item = (case sig item of Inr g \<Rightarrow> g | Inl err \<Rightarrow> [])"

text \<open>Every entry whose item has a signal sits under the key of that signal.\<close>

definition keyed :: "(string \<Rightarrow> key) \<Rightarrow> (json \<Rightarrow> error + string) \<Rightarrow> grouped \<Rightarrow> bool" where
  "keyed mk sig m = (\<forall>kv \<in> set m. sigStr sig (fst (snd kv)) \<noteq> [] \<longrightarrow> fst kv = mk (sigStr sig (fst (snd kv))))"

text \<open>The keys \<open>id:...\<close>, under which items without a signal are stored.\<close>

fun isFallback :: "key \<Rightarrow> bool" where
  "isFallback (IdKey s) = True"
| "isFallback (UniqueKey u) = True"
| "isFallback k = False"


text \<open>The string of a value, empty when the conversion throws.\<close>

definition strOf :: "jslib \<Rightarrow> json \<Rightarrow> string" where
  "strOf lib v = (case toStr lib v of Inr s \<Rightarrow> s | Inl err \<Rightarrow> [])"



text \<open>A value the \<open>Set\<close> of the first pass compares by value.\<close>

fun primitive :: "json \<Rightarrow> bool" where
  "primitive (JArr xs) = False"
| "primitive (JObj kvs) = False"
| "primitive v = True"

text \<open>
  What the loop leaves under the key of a group whose members, with their timestamps,
  are \<open>kept\<close> followed by \<open>cs\<close>: a later member replaces the kept one when its timestamp
  is positive and smaller.
\<close>

fun pick :: "json \<times> int option \<Rightarrow> (json \<times> int option) list \<Rightarrow> json \<times> int option" where
  "pick kept [] = kept"
| "pick kept (c # cs) = pick (if earlier (snd c) (snd kept) then c else kept) cs"

text \<open>A known timestamp: a number above zero.\<close>

definition known :: "int option \<Rightarrow> bool" where
  "known t = (case t of Some v \<Rightarrow> 0 < v | None \<Rightarrow> False)"


text \<open>The timestamp of an item, for an item whose timestamp is read without an error.\<close>

definition timestampOf :: "jslib \<Rightarrow> json \<Rightarrow> int option" where
  "timestampOf lib item = (case startTimestampOf lib item of Inr t \<Rightarrow> t | Inl err \<Rightarrow> None)"

text \<open>
  \<open>e\<close> represents the group \<open>grp\<close> (its members in traversal order): the timestamp of
  every member is read without an error; \<open>e\<close> is a member with its own timestamp; when
  the first member has a known timestamp, \<open>e\<close> has the smallest known timestamp of the
  group; when no member has a known timestamp, \<open>e\<close> is the first member.
\<close>

definition represents :: "jslib \<Rightarrow> json list \<Rightarrow> json \<times> int option \<Rightarrow> bool" where
  "represents lib grp e =
     ((\<forall>y \<in> set grp. startTimestampOf lib y = Inr (timestampOf lib y))
      \<and> fst e \<in> set grp \<and> startTimestampOf lib (fst e) = Inr (snd e)
      \<and> (known (timestampOf lib (hd grp))
           \<longrightarrow> known (snd e)
               \<and> (\<forall>y \<in> set grp. known (timestampOf lib y) \<longrightarrow> the (snd e) \<le> the (timestampOf lib y)))
      \<and> ((\<forall>y \<in> set grp. \<not> known (timestampOf lib y)) \<longrightarrow> fst e = hd grp))"

text \<open>
  An item whose fields have the types the passes expect: it is not \<open>null\<close> or
  \<open>undefined\<close>; its media URL and its formatted start date are strings when they are
  truthy; its first truthy title is a string; a numeric start date is within the range
  of \<open>Date\<close>; its identifier is not an array or an object; the \<open>length\<close> of its
  \<open>snapshot.videos\<close> and of its \<open>snapshot.images\<close> is not an array or an object.
\<close>

definition wellTyped :: "json \<Rightarrow> bool" where
  "wellTyped item =
     (\<not> nullish item
      \<and> (truthy (mediaUrlOf item) \<longrightarrow> is_string (mediaUrlOf item))
      \<and> is_string (titleOf item)
      \<and> (truthy (getProp item ''startDateFormatted'') \<longrightarrow> is_string (getProp item ''startDateFormatted''))
      \<and> (case getProp item ''startDate'' of JNum n \<Rightarrow> \<bar>n * 1000\<bar> \<le> maxTime | _ \<Rightarrow> True)
      \<and> primitive (adIdOf item)
      \<and> primitive (getProp (getProp (snapshotOf item) ''videos'') ''length'')
      \<and> primitive (getProp (getProp (snapshotOf item) ''images'') ''length''))"

section \<open>Concrete inputs\<close>

text \<open>
  The library of the examples: no string is a date or a number, a number prints in
  decimal digits, \<open>trim\<close> strips the ASCII white space and \<open>toLowerCase\<close> maps the
  ASCII capitals.
\<close>

definition digit_char :: "nat \<Rightarrow> char" where
  "digit_char d = ''0123456789'' ! (d mod 10)"

fun showNat :: "nat \<Rightarrow> string" where
  "showNat n = (if n < 10 then [digit_char n] else showNat (n div 10) @ [digit_char n])"

declare showNat.simps [simp del]

definition showInt :: "int \<Rightarrow> string" where
  "showInt i = (if i < 0 then CHR ''-'' # showNat (nat (- i)) else showNat (nat i))"

definition is_space :: "char \<Rightarrow> bool" where
  "is_space c = (c \<in> set [CHR 0x09, CHR 0x0A, CHR 0x0B, CHR 0x0C, CHR 0x0D, CHR 0x20])"

definition trimAscii :: "string \<Rightarrow> string" where
  "trimAscii s = rev (dropWhile is_space (rev (dropWhile is_space s)))"

definition lower_char :: "char \<Rightarrow> char" where
  "lower_char c = (let n = (of_char c :: nat) in if 65 \<le> n \<and> n \<le> 90 then char_of (n + 32) else c)"

definition lowerAscii :: "string \<Rightarrow> string" where
  "lowerAscii s = map lower_char s"

definition exLib :: jslib where
  "exLib = \<lparr>parseDate = (\<lambda>s. None), strToNum = (\<lambda>s. None), numToStr = showInt,
            trim = trimAscii, toLowerCase = lowerAscii\<rparr>"

text \<open>A canonical ad with no media, as the Deduplicator returns it for an item with an identifier only.\<close>

definition exCanonical :: "string \<Rightarrow> int \<Rightarrow> canonical_ad" where
  "exCanonical adId rk =
     \<lparr>c_ad_id = adId, c_brand_id = 1, c_rank = rk, c_creative_type = ''image'',
      c_creative_url = None, c_video_url = None, c_ad_copy = JStr [], c_headline = JStr [],
      c_cta_type = JStr [], c_start_date = NoDate,
      c_ad_library_link = ''https://www.facebook.com/ads/library/?id='' @ adId,
      c_ai_format = None, c_ai_hook = None, c_ai_visual_style = None, c_ai_angle = None\<rparr>"

text \<open>A database with brand 1 registered and nothing stored.\<close>

definition exDb :: db where
  "exDb = \<lparr>ad_vault = [], weekly_snapshots = [], brands = [\<lparr>b_id = 1, b_last_scraped = None\<rparr>]\<rparr>"

text \<open>Wednesday 2024-01-10, 00:00 UTC, on a server whose local time is UTC.\<close>

definition exEnv :: "(op \<Rightarrow> bool) \<Rightarrow> env" where
  "exEnv f = \<lparr>now = 1704844800000, tz = 0, fails = f, js = exLib\<rparr>"

text \<open>Sunday 2024-01-14, 23:00 UTC, on a server whose local time is two hours ahead of UTC.\<close>

definition exEnvEast :: env where
  "exEnvEast = \<lparr>now = 1705273200000, tz = 7200000, fails = (\<lambda>x. False), js = exLib\<rparr>"

text \<open>
  Monday 2024-01-08, 01:00 UTC, on a server whose local time is five hours behind UTC:
  there it is Sunday 2024-01-07, 20:00.
\<close>

definition exEnvWest :: env where
  "exEnvWest = \<lparr>now = 1704675600000, tz = - 18000000, fails = (\<lambda>x. False), js = exLib\<rparr>"

definition exItemRanked :: "string \<Rightarrow> int \<Rightarrow> json" where
  "exItemRanked adId providerRank = JObj [(''adArchiveID'', JStr adId), (''rank'', JNum providerRank)]"

text \<open>A stored ad with one of the five tags set and the other four \<open>NULL\<close>.\<close>

definition exPartial :: stored_ad where
  "exPartial = (projr (newRow exLib 1 19732 (exCanonical ''a1'' 1)))\<lparr>ai_asset_type := Some ''UGC''\<rparr>"

text \<open>
  Stored state of brand 1, last seen on 2024-01-03: an ad that is not bookmarked and a
  bookmarked one, with a snapshot row each for the week of 2024-01-01.
\<close>

definition exStale :: stored_ad where
  "exStale = projr (newRow exLib 1 19725 (exCanonical ''old'' 1))"

definition exKept :: stored_ad where
  "exKept = (projr (newRow exLib 1 19725 (exCanonical ''kept'' 2)))\<lparr>bookmarked := Some 1, weeks_in_top10 := 3\<rparr>"

definition exDbStored :: db where
  "exDbStored =
     \<lparr>ad_vault = [exStale, exKept],
      weekly_snapshots =
        [\<lparr>ws_brand_id = 1, ws_ad_id = ''old'', ws_week_start = 19723, ws_rank = 1\<rparr>,
         \<lparr>ws_brand_id = 1, ws_ad_id = ''kept'', ws_week_start = 19723, ws_rank = 2\<rparr>],
      brands = [\<lparr>b_id = 1, b_last_scraped = None\<rparr>]\<rparr>"

text \<open>
  Raw items: \<open>B\<close> and \<open>C\<close> share their image and their title and start at 100 and 50;
  the two \<open>Dup\<close> items share their identifier; \<open>Twin\<close> has an identifier and nothing else.
\<close>

definition exItemB :: json where
  "exItemB = JObj [(''adArchiveID'', JStr ''x2''), (''startDate'', JNum 100),
                   (''snapshot'', JObj [(''images'', JArr [JStr ''http://h/m1'']), (''title'', JStr ''Sale'')])]"

definition exItemC :: json where
  "exItemC = JObj [(''adArchiveID'', JStr ''x3''), (''startDate'', JNum 50),
                   (''snapshot'', JObj [(''images'', JArr [JStr ''http://h/m1'']), (''title'', JStr ''Sale'')])]"

definition exDupLate :: json where
  "exDupLate = JObj [(''adArchiveID'', JStr ''x1''), (''startDate'', JNum 100)]"

definition exDupEarly :: json where
  "exDupEarly = JObj [(''adArchiveID'', JStr ''x1''), (''startDate'', JNum 50)]"


text \<open>An item whose identifier is an object with a \<open>toString\<close> property.\<close>

definition exBadId :: json where
  "exBadId = JObj [(''adArchiveID'', JObj [(''toString'', JNum 1)])]"


section \<open>Properties of the Deduplicator\<close>

subsection \<open>The grouping loop\<close>

lemma mediaLoop_groupLoop: "mediaLoop lib items n m = groupLoop MediaKey fingerprintOf lib items n m"
  by (induction items arbitrary: n m) (auto split: sum.splits)

lemma headlineLoop_groupLoop:
  "headlineLoop lib items n m = groupLoop HeadlineKey (headlineOf lib) lib items n m"
  by (induction items arbitrary: n m) (auto split: sum.splits)

lemma groupLoop_ConsE:
  assumes "groupLoop mk sig lib (item # rest) n m = Inr m'"
  obtains g ts m1 where "sig item = Inr g" "startTimestampOf lib item = Inr ts"
    "groupStep lib mk g n item ts m = Inr m1" "groupLoop mk sig lib rest (Suc n) m1 = Inr m'"
  using assms by (auto split: sum.splits)

lemma groupStep_cases:
  assumes "groupStep lib mk g n item ts m = Inr m1"
  shows "m1 = m \<and> g \<noteq> [] \<and> (\<exists>x. map_of m (mk g) = Some x \<and> \<not> earlier ts (snd x))
   \<or> (\<exists>k. stepKey lib mk g n item = Inr k \<and> m1 = AList.update k (item, ts) m)"
  using assms by (auto simp: groupStep_def stepKey_def split: option.splits sum.splits if_splits)






lemma groupLoop_timestamps:
  "groupLoop mk sig lib items n m = Inr m' \<Longrightarrow>
     \<forall>it \<in> set items. startTimestampOf lib it = Inr (timestampOf lib it)"
proof (induction items arbitrary: n m)
  case Nil
  then show ?case by simp
next
  case (Cons item rest)
  from Cons.prems obtain g ts m1 where ts: "startTimestampOf lib item = Inr ts"
    and r: "groupLoop mk sig lib rest (Suc n) m1 = Inr m'"
    by (rule groupLoop_ConsE)
  from ts have "startTimestampOf lib item = Inr (timestampOf lib item)" by (simp add: timestampOf_def)
  with Cons.IH[OF r] show ?case by simp
qed



lemma set_update_subset: "set (AList.update k v m) \<subseteq> insert (k, v) (set m)"
  by (induction m) auto

lemma groupStep_keyed:
  assumes "keyed mk sig m" and "sig item = Inr g" and "groupStep lib mk g n item ts m = Inr m1"
  shows "keyed mk sig m1"
proof -
  from groupStep_cases[OF assms(3)] consider "m1 = m"
    | k where "stepKey lib mk g n item = Inr k" "m1 = AList.update k (item, ts) m" by blast
  then show ?thesis
  proof cases
    case 1
    with assms(1) show ?thesis by simp
  next
    case (2 k)
    have new: "sigStr sig item \<noteq> [] \<longrightarrow> k = mk (sigStr sig item)"
      using assms(2) 2(1) by (auto simp: sigStr_def stepKey_def split: if_splits)
    have "keyed mk sig (AList.update k (item, ts) m)"
      unfolding keyed_def
    proof
      fix kv assume "kv \<in> set (AList.update k (item, ts) m)"
      with set_update_subset have "kv = (k, (item, ts)) \<or> kv \<in> set m" by fastforce
      with new assms(1) show "sigStr sig (fst (snd kv)) \<noteq> [] \<longrightarrow> fst kv = mk (sigStr sig (fst (snd kv)))"
        by (auto simp: keyed_def)
    qed
    with 2(2) show ?thesis by simp
  qed
qed

lemma groupStep_distinct:
  "distinct (map fst m) \<Longrightarrow> groupStep lib mk g n item ts m = Inr m1 \<Longrightarrow> distinct (map fst m1)"
  using groupStep_cases[of lib mk g n item ts m m1] by (auto simp: distinct_update)

lemma groupLoop_keyed:
  "groupLoop mk sig lib items n m = Inr m' \<Longrightarrow> keyed mk sig m \<Longrightarrow> distinct (map fst m)
     \<Longrightarrow> keyed mk sig m' \<and> distinct (map fst m')"
proof (induction items arbitrary: n m)
  case Nil
  then show ?case by simp
next
  case (Cons item rest)
  from Cons.prems(1) obtain g ts m1 where g: "sig item = Inr g"
    and st: "groupStep lib mk g n item ts m = Inr m1"
    and r: "groupLoop mk sig lib rest (Suc n) m1 = Inr m'"
    by (rule groupLoop_ConsE)
  show ?case
    by (rule Cons.IH[OF r groupStep_keyed[OF Cons.prems(2) g st] groupStep_distinct[OF Cons.prems(3) st]])
qed





lemma keyed_empty: "keyed mk sig []" "distinct (map fst ([] :: grouped))"
  by (simp_all add: keyed_def)


subsection \<open>Items without a signal\<close>




lemma fallbackKey_eq:
  "fallbackKey lib n item = Inr k \<Longrightarrow>
     k = (if truthy (adIdOf item) then IdKey (strOf lib (adIdOf item)) else UniqueKey n)"
  by (auto simp: fallbackKey_def strOf_def Let_def split: if_splits sum.splits)

lemma isFallback_fallbackKey: "fallbackKey lib n item = Inr k \<Longrightarrow> isFallback k"
  by (auto dest: fallbackKey_eq split: if_splits)





subsection \<open>The identifier pass\<close>

lemma consE_Inr: "consE x r = Inr out \<longleftrightarrow> (\<exists>xs. r = Inr xs \<and> out = x # xs)"
  by (cases r) (auto simp: consE_def)

lemma idPass_step:
  assumes "idPass (item # rest) seen = Inr out"
  obtains (noId) out' where "\<not> nullish item" "\<not> truthy (adIdOf item)" "idPass rest seen = Inr out'" "out = item # out'"
    | (dup) "\<not> nullish item" "truthy (adIdOf item)" "\<exists>s \<in> set seen. sameValueZero s (adIdOf item)"
        "idPass rest seen = Inr out"
    | (new) out' where "\<not> nullish item" "truthy (adIdOf item)" "\<not> (\<exists>s \<in> set seen. sameValueZero s (adIdOf item))"
        "idPass rest (seen @ [adIdOf item]) = Inr out'" "out = item # out'"
  using assms by (auto simp: Let_def consE_Inr split: if_splits)





lemma sameValueZero_primitive: "primitive a \<Longrightarrow> sameValueZero s a \<longleftrightarrow> s = a"
  by (cases s; cases a) auto

lemma idPass_first:
  assumes "idPass items seen = Inr out" and "primitive a" and "truthy a"
  shows "filter (\<lambda>it. adIdOf it = a) out
           = (if a \<in> set seen then [] else take 1 (filter (\<lambda>it. adIdOf it = a) items))"
  using assms(1)
proof (induction items arbitrary: seen out)
  case Nil
  then show ?case by simp
next
  case (Cons item rest)
  from Cons.prems show ?case
  proof (cases rule: idPass_step)
    case (noId out')
    with assms(3) have "adIdOf item \<noteq> a" by auto
    with noId Cons.IH[of seen out'] show ?thesis by simp
  next
    case dup
    show ?thesis
    proof (cases "adIdOf item = a")
      case True
      with dup(3) assms(2) have "a \<in> set seen" by (simp add: sameValueZero_primitive)
      with Cons.IH[OF dup(4)] show ?thesis by simp
    next
      case False
      with Cons.IH[OF dup(4)] show ?thesis by simp
    qed
  next
    case (new out')
    show ?thesis
    proof (cases "adIdOf item = a")
      case True
      with new(3) assms(2) have "a \<notin> set seen" by (simp add: sameValueZero_primitive)
      moreover from Cons.IH[OF new(4)] True have "filter (\<lambda>it. adIdOf it = a) out' = []" by simp
      ultimately show ?thesis using new(5) True by simp
    next
      case False
      with Cons.IH[OF new(4)] new(5) show ?thesis by simp
    qed
  qed
qed


subsection \<open>The representative of a group\<close>

lemma pick_mem: "pick e es \<in> set (e # es)"
  by (induction es arbitrary: e) (auto split: if_splits)

lemma pick_unknown: "(\<forall>c \<in> set es. \<not> known (snd c)) \<Longrightarrow> pick e es = e"
  by (induction es arbitrary: e) (auto simp: earlier_def known_def split: option.splits)

lemma pick_known:
  "known (snd e) \<Longrightarrow>
     known (snd (pick e es)) \<and> (\<forall>y \<in> set (e # es). known (snd y) \<longrightarrow> the (snd (pick e es)) \<le> the (snd y))"
proof (induction es arbitrary: e)
  case Nil
  then show ?case by simp
next
  case (Cons c cs)
  let ?e' = "if earlier (snd c) (snd e) then c else e"
  have k': "known (snd ?e')" using Cons.prems by (auto simp: earlier_def known_def split: option.splits)
  from Cons.IH[OF k'] have kp: "known (snd (pick ?e' cs))"
    and le: "\<forall>y \<in> set (?e' # cs). known (snd y) \<longrightarrow> the (snd (pick ?e' cs)) \<le> the (snd y)" by simp_all
  from le k' have le': "the (snd (pick ?e' cs)) \<le> the (snd ?e')" by simp
  have "the (snd ?e') \<le> the (snd e)"
    using Cons.prems by (auto simp: earlier_def known_def split: option.splits)
  with le' have a: "the (snd (pick ?e' cs)) \<le> the (snd e)" by simp
  have "known (snd c) \<longrightarrow> the (snd ?e') \<le> the (snd c)"
    using Cons.prems by (auto simp: earlier_def known_def split: option.splits)
  with le' have b: "known (snd c) \<longrightarrow> the (snd (pick ?e' cs)) \<le> the (snd c)" by auto
  from kp le a b show ?case by auto
qed

lemma groupStep_lookup_same:
  "g \<noteq> [] \<Longrightarrow> groupStep lib mk g n item ts m = Inr m1 \<Longrightarrow>
     map_of m1 (mk g)
       = Some (case map_of m (mk g) of None \<Rightarrow> (item, ts)
               | Some x \<Rightarrow> if earlier ts (snd x) then (item, ts) else x)"
  by (auto simp: groupStep_def update_conv' split: option.splits if_splits)

lemma groupStep_lookup_other:
  assumes "groupStep lib mk h n item ts m = Inr m1"
    and "\<And>k'. stepKey lib mk h n item = Inr k' \<Longrightarrow> k' \<noteq> k"
  shows "map_of m1 k = map_of m k"
  using groupStep_cases[OF assms(1)] assms(2) by (auto simp: update_conv')

lemma groupLoop_value:
  assumes "groupLoop mk sig lib items n m = Inr m'" and "g \<noteq> []" and "inj mk" and "\<And>h. \<not> isFallback (mk h)"
  shows "map_of m' (mk g) =
           (case map_of m (mk g) of
              Some e \<Rightarrow> Some (pick e (map (\<lambda>it. (it, timestampOf lib it)) (filter (\<lambda>it. sig it = Inr g) items)))
            | None \<Rightarrow>
                (case map (\<lambda>it. (it, timestampOf lib it)) (filter (\<lambda>it. sig it = Inr g) items) of
                   [] \<Rightarrow> None
                 | e # es \<Rightarrow> Some (pick e es)))"
  using assms(1)
proof (induction items arbitrary: n m)
  case Nil
  then show ?case by (auto split: option.splits)
next
  case (Cons item rest)
  from Cons.prems obtain h ts m1 where h: "sig item = Inr h"
    and tse: "startTimestampOf lib item = Inr ts"
    and st: "groupStep lib mk h n item ts m = Inr m1"
    and r: "groupLoop mk sig lib rest (Suc n) m1 = Inr m'"
    by (rule groupLoop_ConsE)
  from tse have ts: "timestampOf lib item = ts" by (simp add: timestampOf_def)
  note ih = Cons.IH[OF r]
  show ?case
  proof (cases "h = g")
    case True
    from groupStep_lookup_same[OF assms(2) st[unfolded True]]
    show ?thesis using ih h True ts by (auto split: option.splits)
  next
    case False
    have neq: "k' \<noteq> mk g" if k': "stepKey lib mk h n item = Inr k'" for k'
    proof (cases "h = []")
      case True
      with k' have "fallbackKey lib n item = Inr k'" by (simp add: stepKey_def)
      from isFallback_fallbackKey[OF this] assms(4)[of g] show ?thesis by auto
    next
      case nonempty: False
      with k' have "k' = mk h" by (simp add: stepKey_def)
      with False assms(3) show ?thesis by (auto dest: injD)
    qed
    have same: "map_of m1 (mk g) = map_of m (mk g)"
      by (rule groupStep_lookup_other[OF st]) (rule neq)
    have f: "filter (\<lambda>it. sig it = Inr g) (item # rest) = filter (\<lambda>it. sig it = Inr g) rest"
      using h False by simp
    show ?thesis using ih unfolding f same .
  qed
qed

lemma filter_single_by_key:
  assumes "distinct (map fst m)" and "\<forall>kv \<in> set m. P kv \<longrightarrow> fst kv = k"
    and "map_of m k = Some v" and "P (k, v)"
  shows "filter P m = [(k, v)]"
  using assms
proof (induction m)
  case Nil
  then show ?case by simp
next
  case (Cons kv m)
  show ?case
  proof (cases "fst kv = k")
    case True
    with Cons.prems(3) have kv: "kv = (k, v)" by (cases kv) auto
    from Cons.prems(1) True have "k \<notin> fst ` set m" by auto
    with Cons.prems(2) have "\<forall>x \<in> set m. \<not> P x" by (metis image_eqI list.set_intros(2))
    then have "filter P m = []" by (simp add: filter_empty_conv)
    with kv Cons.prems(4) show ?thesis by simp
  next
    case False
    with Cons.prems(2) have "\<not> P kv" by auto
    moreover from Cons.prems False have "filter P m = [(k, v)]"
      by (intro Cons.IH) (auto split: if_splits)
    ultimately show ?thesis by simp
  qed
qed

lemma groupLoop_representative:
  assumes loop: "groupLoop mk sig lib items 0 [] = Inr m'"
    and g: "g \<noteq> []" and inj: "inj mk" and nf: "\<And>h. \<not> isFallback (mk h)"
    and grp: "filter (\<lambda>it. sig it = Inr g) items \<noteq> []"
  shows "\<exists>e. map_of m' (mk g) = Some e \<and> represents lib (filter (\<lambda>it. sig it = Inr g) items) e
            \<and> filter (\<lambda>it. sig it = Inr g) (itemsOf m') = [fst e]"
proof -
  let ?grp = "filter (\<lambda>it. sig it = Inr g) items"
  let ?ent = "\<lambda>it. (it, timestampOf lib it)"
  note tss = groupLoop_timestamps[OF loop]
  then have e0: "\<forall>y \<in> set ?grp. startTimestampOf lib y = Inr (timestampOf lib y)" by simp
  from grp obtain x xs where x: "?grp = x # xs" by (cases ?grp) auto
  let ?e = "pick (?ent x) (map ?ent xs)"
  from groupLoop_value[OF loop g inj nf] x have look: "map_of m' (mk g) = Some ?e" by simp
  from pick_mem[of "?ent x" "map ?ent xs"] have mem: "?e \<in> ?ent ` set ?grp" by (simp add: x)
  then have e1: "fst ?e \<in> set ?grp" and e2': "snd ?e = timestampOf lib (fst ?e)" by auto
  from e0 e1 e2' have e2: "startTimestampOf lib (fst ?e) = Inr (snd ?e)" by simp
  have e3: "known (snd ?e) \<and> (\<forall>y \<in> set ?grp. known (timestampOf lib y) \<longrightarrow> the (snd ?e) \<le> the (timestampOf lib y))"
    if "known (timestampOf lib (hd ?grp))"
  proof -
    from that have "known (snd (?ent x))" by (simp add: x)
    from pick_known[OF this, of "map ?ent xs"] show ?thesis by (auto simp: x)
  qed
  have e4: "fst ?e = hd ?grp" if "\<forall>y \<in> set ?grp. \<not> known (timestampOf lib y)"
  proof -
    from that have "\<forall>c \<in> set (map ?ent xs). \<not> known (snd c)" by (auto simp: x)
    from pick_unknown[OF this] show ?thesis by (simp add: x)
  qed
  from e0 e1 e2 e3 e4 have rep: "represents lib ?grp ?e" unfolding represents_def by blast
  from groupLoop_keyed[OF loop keyed_empty] have k: "keyed mk sig m'" and d: "distinct (map fst m')" by simp_all
  let ?P = "\<lambda>kv. sig (fst (snd kv)) = Inr g"
  have "\<forall>kv \<in> set m'. ?P kv \<longrightarrow> fst kv = mk g"
    using k g by (auto simp: keyed_def sigStr_def)
  moreover from e1 have "?P (mk g, ?e)" by simp
  ultimately have "filter ?P m' = [(mk g, ?e)]" using d look by (intro filter_single_by_key) auto
  then have "filter (\<lambda>it. sig it = Inr g) (itemsOf m') = [fst ?e]"
    by (simp add: itemsOf_def filter_map comp_def)
  with look rep show ?thesis by blast
qed

text \<open>
  C3, as stated, fails in the identifier pass: of two items with the same identifier the
  first is kept, though the second started earlier.
\<close>

theorem id_pass_keeps_first_counterexample:
  "dedupe exLib [exDupLate, exDupEarly] = Inr [exDupLate]
   \<and> adIdOf exDupLate = adIdOf exDupEarly
   \<and> startTimestampOf exLib exDupLate = Inr (Some 100000)
   \<and> startTimestampOf exLib exDupEarly = Inr (Some 50000)"
  by code_simp

text \<open>
  C3, amended. The identifier pass keeps the first item of every group of items with the
  same identifier. In the media pass and in the headline pass, every group with a
  non-empty key collapses to one item, which represents the group: a member of it, with
  the smallest known timestamp of the group when the first member's timestamp is known,
  and the first member when no member's timestamp is known.
\<close>

theorem kept_representative:
  "(idPass items [] = Inr uniqueById \<and> primitive a \<and> truthy a
      \<longrightarrow> filter (\<lambda>it. adIdOf it = a) uniqueById = take 1 (filter (\<lambda>it. adIdOf it = a) items))
   \<and> (mediaLoop lib items 0 [] = Inr mediaGrouped \<and> g \<noteq> [] \<and> filter (\<lambda>it. fingerprintOf it = Inr g) items \<noteq> []
      \<longrightarrow> (\<exists>e. map_of mediaGrouped (MediaKey g) = Some e
                \<and> represents lib (filter (\<lambda>it. fingerprintOf it = Inr g) items) e
                \<and> filter (\<lambda>it. fingerprintOf it = Inr g) (itemsOf mediaGrouped) = [fst e]))
   \<and> (headlineLoop lib items 0 [] = Inr headlineGrouped \<and> g \<noteq> [] \<and> filter (\<lambda>it. headlineOf lib it = Inr g) items \<noteq> []
      \<longrightarrow> (\<exists>e. map_of headlineGrouped (HeadlineKey g) = Some e
                \<and> represents lib (filter (\<lambda>it. headlineOf lib it = Inr g) items) e
                \<and> filter (\<lambda>it. headlineOf lib it = Inr g) (itemsOf headlineGrouped) = [fst e]))"
proof -
  have injM: "inj MediaKey" and injH: "inj HeadlineKey" by (simp_all add: inj_on_def)
  have a: "filter (\<lambda>it. adIdOf it = a) uniqueById = take 1 (filter (\<lambda>it. adIdOf it = a) items)"
    if "idPass items [] = Inr uniqueById" "primitive a" "truthy a"
    using idPass_first[OF that] by simp
  have b: "\<exists>e. map_of mediaGrouped (MediaKey g) = Some e
                \<and> represents lib (filter (\<lambda>it. fingerprintOf it = Inr g) items) e
                \<and> filter (\<lambda>it. fingerprintOf it = Inr g) (itemsOf mediaGrouped) = [fst e]"
    if "mediaLoop lib items 0 [] = Inr mediaGrouped" "g \<noteq> []" "filter (\<lambda>it. fingerprintOf it = Inr g) items \<noteq> []"
    using groupLoop_representative[OF that(1)[unfolded mediaLoop_groupLoop] that(2) injM _ that(3)] by simp
  have c: "\<exists>e. map_of headlineGrouped (HeadlineKey g) = Some e
                \<and> represents lib (filter (\<lambda>it. headlineOf lib it = Inr g) items) e
                \<and> filter (\<lambda>it. headlineOf lib it = Inr g) (itemsOf headlineGrouped) = [fst e]"
    if "headlineLoop lib items 0 [] = Inr headlineGrouped" "g \<noteq> []" "filter (\<lambda>it. headlineOf lib it = Inr g) items \<noteq> []"
    using groupLoop_representative[OF that(1)[unfolded headlineLoop_groupLoop] that(2) injH _ that(3)] by simp
  from a b c show ?thesis by blast
qed

theorem kept_representative_witness:
  "filter (\<lambda>it. adIdOf it = JStr ''x2'') (projr (idPass [exItemB, exItemC, exItemB] [])) = [exItemB]
   \<and> (\<exists>e. map_of (projr (mediaLoop exLib [exItemB, exItemC, exItemB] 0 [])) (MediaKey ''http://h/m1'') = Some e
          \<and> represents exLib [exItemB, exItemC, exItemB] e \<and> e = (exItemC, Some 50000))
   \<and> (\<exists>e. map_of (projr (headlineLoop exLib [exItemB, exItemC, exItemB] 0 [])) (HeadlineKey ''sale'') = Some e
          \<and> represents exLib [exItemB, exItemC, exItemB] e \<and> e = (exItemC, Some 50000))"
proof -
  let ?its = "[exItemB, exItemC, exItemB]"
  have i: "idPass ?its [] = Inr (projr (idPass ?its []))"
    and m: "mediaLoop exLib ?its 0 [] = Inr (projr (mediaLoop exLib ?its 0 []))"
    and h: "headlineLoop exLib ?its 0 [] = Inr (projr (headlineLoop exLib ?its 0 []))"
    by code_simp+
  have a: "primitive (JStr ''x2'')" "truthy (JStr ''x2'')" by simp_all
  have gm: "filter (\<lambda>it. fingerprintOf it = Inr ''http://h/m1'') ?its = ?its" "''http://h/m1'' \<noteq> []"
    and gh: "filter (\<lambda>it. headlineOf exLib it = Inr ''sale'') ?its = ?its" "''sale'' \<noteq> []"
    by code_simp+
  have t1: "take 1 (filter (\<lambda>it. adIdOf it = JStr ''x2'') ?its) = [exItemB]" by code_simp
  have vm: "map_of (projr (mediaLoop exLib ?its 0 [])) (MediaKey ''http://h/m1'') = Some (exItemC, Some 50000)"
    and vh: "map_of (projr (headlineLoop exLib ?its 0 [])) (HeadlineKey ''sale'') = Some (exItemC, Some 50000)"
    by code_simp+
  note km = kept_representative[of ?its "projr (idPass ?its [])" "JStr ''x2''" exLib
      "projr (mediaLoop exLib ?its 0 [])" "''http://h/m1''" "projr (headlineLoop exLib ?its 0 [])"]
  note kh = kept_representative[of ?its "projr (idPass ?its [])" "JStr ''x2''" exLib
      "projr (mediaLoop exLib ?its 0 [])" "''sale''" "projr (headlineLoop exLib ?its 0 [])"]
  from km i a t1 have c1: "filter (\<lambda>it. adIdOf it = JStr ''x2'') (projr (idPass ?its [])) = [exItemB]"
    by simp
  from km m gm vm have c2: "\<exists>e. map_of (projr (mediaLoop exLib ?its 0 [])) (MediaKey ''http://h/m1'') = Some e
          \<and> represents exLib ?its e \<and> e = (exItemC, Some 50000)"
    by auto
  from kh h gh vh have c3: "\<exists>e. map_of (projr (headlineLoop exLib ?its 0 [])) (HeadlineKey ''sale'') = Some e
          \<and> represents exLib ?its e \<and> e = (exItemC, Some 50000)"
    by auto
  from c1 c2 c3 show ?thesis by blast
qed

subsection \<open>Uniqueness in the output\<close>

lemma mapCanonical_ranks:
  "mapCanonical lib nowMs brandId i xs = Inr out \<Longrightarrow>
     length out = length xs \<and> (\<forall>k < length out. c_rank (out ! k) = int (i + k) + 1)"
proof (induction xs arbitrary: i out)
  case Nil
  then show ?case by simp
next
  case (Cons x xs)
  from Cons.prems obtain ad rest where
    ad: "toCanonical lib nowMs brandId i x = Inr ad" and
    rest: "mapCanonical lib nowMs brandId (Suc i) xs = Inr rest" and
    out: "out = ad # rest"
    by (auto simp: consE_def split: sum.splits)
  from ad have rk: "c_rank ad = int i + 1"
    by (auto simp: toCanonical_def Let_def split: if_splits sum.splits prod.splits)
  from Cons.IH[OF rest] have len: "length rest = length xs"
    and ih: "\<forall>k < length rest. c_rank (rest ! k) = int (Suc i + k) + 1" by auto
  have "c_rank ((ad # rest) ! k) = int (i + k) + 1" if "k < length (ad # rest)" for k
  proof (cases k)
    case 0
    then show ?thesis using rk by simp
  next
    case (Suc j)
    then show ?thesis using that ih by simp
  qed
  then show ?case using out len by simp
qed

lemma mapCanonical_nth:
  "mapCanonical lib nowMs brandId i xs = Inr out \<Longrightarrow>
     \<forall>k < length out. toCanonical lib nowMs brandId (i + k) (xs ! k) = Inr (out ! k)"
proof (induction xs arbitrary: i out)
  case Nil
  then show ?case by simp
next
  case (Cons x xs)
  from Cons.prems obtain ad rest where
    ad: "toCanonical lib nowMs brandId i x = Inr ad" and
    rest: "mapCanonical lib nowMs brandId (Suc i) xs = Inr rest" and
    out: "out = ad # rest"
    by (auto simp: consE_def split: sum.splits)
  from Cons.IH[OF rest] have ih: "\<forall>k < length rest. toCanonical lib nowMs brandId (Suc i + k) (xs ! k) = Inr (rest ! k)" .
  have "toCanonical lib nowMs brandId (i + k) ((x # xs) ! k) = Inr ((ad # rest) ! k)" if "k < length (ad # rest)" for k
  proof (cases k)
    case 0
    then show ?thesis using ad by simp
  next
    case (Suc j)
    then show ?thesis using that ih by simp
  qed
  then show ?case using out by simp
qed








text \<open>
  C6. Whenever the Deduplicator returns, its output is made, in order, from the first
  twenty survivors of the three passes, so it has at most twenty ads, and their ranks are
  \<open>1, 2, ..., n\<close> in output order: the rank is the position plus one and reads nothing
  of the raw item.
\<close>

theorem rank_reassignment:
  assumes "transformApifyResults lib nowMs apifyResults brandId = Inr out"
  shows "\<exists>uniqueResults. dedupe lib apifyResults = Inr uniqueResults
           \<and> length out = min 20 (length uniqueResults)
           \<and> length out \<le> 20
           \<and> (\<forall>k < length out. toCanonical lib nowMs brandId k (uniqueResults ! k) = Inr (out ! k))
           \<and> map c_rank out = map (\<lambda>k. int k + 1) [0..<length out]"
proof -
  from assms obtain uniqueResults where
    d: "dedupe lib apifyResults = Inr uniqueResults" and
    m: "mapCanonical lib nowMs brandId 0 (take 20 uniqueResults) = Inr out"
    by (auto simp: transformApifyResults_def split: sum.splits)
  from mapCanonical_ranks[OF m] have len: "length out = min 20 (length uniqueResults)"
    and rk: "\<forall>k < length out. c_rank (out ! k) = int k + 1" by (auto simp: min_def)
  from mapCanonical_nth[OF m] len
  have nth: "\<forall>k < length out. toCanonical lib nowMs brandId k (uniqueResults ! k) = Inr (out ! k)" by simp
  have rks: "map c_rank out = map (\<lambda>k. int k + 1) [0..<length out]"
    by (rule nth_equalityI) (use rk in auto)
  from len have "length out \<le> 20" by simp
  with d len nth rks show ?thesis by blast
qed

theorem rank_reassignment_witness:
  "\<exists>out. transformApifyResults exLib 17
            [exItemRanked ''x1'' 40, exItemRanked ''x2'' 7, exItemRanked ''x1'' 3] 1 = Inr out
         \<and> map c_rank out = [1, 2]
         \<and> length out \<le> 20
         \<and> map c_rank out = map (\<lambda>k. int k + 1) [0..<length out]"
proof -
  have h: "map_sum id (map c_rank)
             (transformApifyResults exLib 17
                [exItemRanked ''x1'' 40, exItemRanked ''x2'' 7, exItemRanked ''x1'' 3] 1) = Inr [1, 2]"
    by code_simp
  then obtain out where
    o: "transformApifyResults exLib 17
          [exItemRanked ''x1'' 40, exItemRanked ''x2'' 7, exItemRanked ''x1'' 3] 1 = Inr out"
    and r: "map c_rank out = [1, 2]"
    by (cases "transformApifyResults exLib 17
                 [exItemRanked ''x1'' 40, exItemRanked ''x2'' 7, exItemRanked ''x1'' 3] 1") auto
  from rank_reassignment[OF o] o r show ?thesis by auto
qed

subsection \<open>Returning a result\<close>














text \<open>
  An identifier that is an object with a \<open>toString\<close> property has no string: the
  Deduplicator raises \<open>TypeError\<close> on it, and such an item is not well-typed.
\<close>

lemma object_identifier_raises:
  "transformApifyResults exLib 17 [exBadId] 1 = Inl TypeError \<and> \<not> wellTyped exBadId"
  by code_simp




section \<open>Properties of the Reconciler\<close>

subsection \<open>What a merge leaves untouched\<close>

lemma find_filter_conv:
  "find P xs = (case filter P xs of [] \<Rightarrow> None | x # _ \<Rightarrow> Some x)"
  by (induction xs) auto

lemma filter_updateRow_other:
  "\<not> Q (c_ad_id ad) \<Longrightarrow>
     filter (\<lambda>r. Q (ad_id r)) (map (updateRow today w ad) rows) = filter (\<lambda>r. Q (ad_id r)) rows"
  by (induction rows) (auto simp: updateRow_def)

lemma filter_upsert_other:
  "\<not> Q adId \<Longrightarrow>
     filter (\<lambda>s. Q (ws_ad_id s)) (upsertSnapshot brandId adId weekStart rk rows)
       = filter (\<lambda>s. Q (ws_ad_id s)) rows"
  by (induction rows) (auto simp: upsertSnapshot_def)

lemma newRow_fields:
  assumes "newRow lib brandId today ad = Inr row"
  shows "ad_id row = c_ad_id ad" "brand_id row = brandId" "first_seen row = Some today"
    "last_seen row = Some today" "weeks_in_top10 row = 1" "bookmarked row = Some 0"
    "ai_asset_type row = None" "ai_visual_format row = None" "ai_messaging_angle row = None"
    "ai_hook_tactic row = None" "ai_offer_type row = None"
  using assms by (auto simp: newRow_def split: sum.splits)

lemma mergeAd_shape:
  assumes "mergeAd e brandId weekStart today ad d = (d', res)"
  shows "brands d' = brands d
    \<and> (ad_vault d' = ad_vault d
        \<or> (\<exists>w. ad_vault d' = map (updateRow today w ad) (ad_vault d))
        \<or> (\<exists>row. newRow (js e) brandId today ad = Inr row \<and> ad_vault d' = ad_vault d @ [row]))
    \<and> (weekly_snapshots d' = weekly_snapshots d
        \<or> weekly_snapshots d' = upsertSnapshot brandId (c_ad_id ad) weekStart (c_rank ad) (weekly_snapshots d))"
  using assms
  by (auto simp: mergeAd_def guard_def recordSnapshot_def Let_def split: if_splits option.splits sum.splits)

lemma mergeAd_frame:
  assumes "mergeAd e brandId weekStart today ad d = (d', res)" and "\<not> Q (c_ad_id ad)"
  shows "filter (\<lambda>r. Q (ad_id r)) (ad_vault d') = filter (\<lambda>r. Q (ad_id r)) (ad_vault d)"
    and "filter (\<lambda>s. Q (ws_ad_id s)) (weekly_snapshots d') = filter (\<lambda>s. Q (ws_ad_id s)) (weekly_snapshots d)"
    and "brands d' = brands d"
proof -
  note sh = mergeAd_shape[OF assms(1)]
  from sh show "brands d' = brands d" by simp
  from sh assms(2) show "filter (\<lambda>r. Q (ad_id r)) (ad_vault d') = filter (\<lambda>r. Q (ad_id r)) (ad_vault d)"
    by (auto simp: filter_updateRow_other newRow_fields(1))
  from sh assms(2) show "filter (\<lambda>s. Q (ws_ad_id s)) (weekly_snapshots d') = filter (\<lambda>s. Q (ws_ad_id s)) (weekly_snapshots d)"
    by (auto simp: filter_upsert_other)
qed

lemma mergeAll_frame:
  assumes "mergeAll e brandId weekStart today ads d acc = (d', res)"
    and "\<forall>a \<in> set ads. \<not> Q (c_ad_id a)"
  shows "filter (\<lambda>r. Q (ad_id r)) (ad_vault d') = filter (\<lambda>r. Q (ad_id r)) (ad_vault d)
       \<and> filter (\<lambda>s. Q (ws_ad_id s)) (weekly_snapshots d') = filter (\<lambda>s. Q (ws_ad_id s)) (weekly_snapshots d)
       \<and> brands d' = brands d"
  using assms
proof (induction ads arbitrary: d acc)
  case Nil
  then show ?case by simp
next
  case (Cons a ads)
  obtain d1 r1 where m: "mergeAd e brandId weekStart today a d = (d1, r1)"
    by (cases "mergeAd e brandId weekStart today a d")
  from Cons.prems(2) have nq: "\<not> Q (c_ad_id a)" by simp
  note fr = mergeAd_frame[where Q=Q, OF m nq]
  show ?case
  proof (cases r1)
    case (Inl err)
    with Cons.prems(1) m have "d' = d1" by simp
    with fr show ?thesis by simp
  next
    case (Inr p)
    with Cons.prems(1) m have "mergeAll e brandId weekStart today ads d1 (acc @ [p]) = (d', res)" by simp
    from Cons.IH[OF this] Cons.prems(2) fr show ?thesis by simp
  qed
qed

lemma mergeAll_append:
  "mergeAll e brandId weekStart today (xs @ ys) d acc =
     (case mergeAll e brandId weekStart today xs d acc of
        (d1, Inl err) \<Rightarrow> (d1, Inl err)
      | (d1, Inr ps) \<Rightarrow> mergeAll e brandId weekStart today ys d1 ps)"
  by (induction xs arbitrary: d acc) (auto split: prod.splits sum.splits)

lemma cleanup_shape:
  assumes "cleanup e brandId newAdIds d = (d1, res)"
  shows "brands d1 = brands d
    \<and> (weekly_snapshots d1 = weekly_snapshots d \<and> ad_vault d1 = ad_vault d \<and> (res = Inr () \<longrightarrow> newAdIds = [])
       \<or> weekly_snapshots d1 = filter (\<lambda>s. ws_ad_id s \<notin> set (staleIds brandId newAdIds d)) (weekly_snapshots d)
         \<and> ad_vault d1 = ad_vault d \<and> res = Inl StorageError
       \<or> weekly_snapshots d1 = filter (\<lambda>s. ws_ad_id s \<notin> set (staleIds brandId newAdIds d)) (weekly_snapshots d)
         \<and> ad_vault d1 = filter (\<lambda>r. \<not> staleAd brandId newAdIds r) (ad_vault d) \<and> res = Inr ())"
proof (cases "filter (staleAd brandId newAdIds) (ad_vault d) = []")
  case True
  then have "staleIds brandId newAdIds d = []" by (simp add: staleIds_def)
  then have "filter (\<lambda>s. ws_ad_id s \<notin> set (staleIds brandId newAdIds d)) (weekly_snapshots d) = weekly_snapshots d"
    by simp
  with assms True show ?thesis
    by (auto simp: cleanup_def guard_def deleteStale_def Let_def split: if_splits)
next
  case False
  with assms show ?thesis
    by (auto simp: cleanup_def guard_def deleteStale_def Let_def staleIds_def split: if_splits)
qed

lemma process_shape:
  assumes "processScrapedAds e brandId scrapedAds d = (d', res)"
  shows "(d' = d \<and> (res = Inl StorageError \<or> brandId \<notin> b_id ` set (brands d)))
       \<or> (\<exists>d1 r1 d2 r2 ads.
             cleanup e brandId (map c_ad_id scrapedAds) d = (d1, r1)
           \<and> mergeAll e brandId (getWeekStart (tz e) (now e)) (utcDay (now e)) ads d1 [] = (d2, r2)
           \<and> set ads \<subseteq> set scrapedAds
           \<and> ad_vault d' = ad_vault d2 \<and> weekly_snapshots d' = weekly_snapshots d2
           \<and> (\<forall>ps. res = Inr ps \<longrightarrow> r1 = Inr () \<and> r2 = Inr ps \<and> ads = scrapedAds))"
proof (cases "fails e SelectBrand \<or> brandId \<notin> b_id ` set (brands d)")
  case True
  with assms have "d' = d \<and> (res = Inl StorageError \<or> brandId \<notin> b_id ` set (brands d))"
    by (cases "fails e SelectBrand") (auto simp: processScrapedAds_def guard_def)
  then show ?thesis by (rule disjI1)
next
  case False
  obtain d1 r1 where c: "cleanup e brandId (map c_ad_id scrapedAds) d = (d1, r1)"
    by (cases "cleanup e brandId (map c_ad_id scrapedAds) d")
  show ?thesis
  proof (cases r1)
    case (Inl err)
    with assms False c have "d' = d1" "res = Inl err"
      by (auto simp: processScrapedAds_def guard_def Let_def)
    moreover have "mergeAll e brandId (getWeekStart (tz e) (now e)) (utcDay (now e)) [] d1 [] = (d1, Inr [])"
      by simp
    ultimately show ?thesis using c Inl by (intro disjI2 exI[of _ d1] exI[of _ r1] exI[of _ "Inr []"] exI[of _ "[]"]) auto
  next
    case (Inr u)
    obtain d2 r2 where m: "mergeAll e brandId (getWeekStart (tz e) (now e)) (utcDay (now e)) scrapedAds d1 [] = (d2, r2)"
      by (cases "mergeAll e brandId (getWeekStart (tz e) (now e)) (utcDay (now e)) scrapedAds d1 []")
    from assms False c Inr m have "ad_vault d' = ad_vault d2 \<and> weekly_snapshots d' = weekly_snapshots d2
        \<and> (\<forall>ps. res = Inr ps \<longrightarrow> r2 = Inr ps)"
      by (auto simp: processScrapedAds_def guard_def Let_def touchBrand_def split: sum.splits if_splits)
    with c m Inr show ?thesis
      by (intro disjI2 exI[of _ d1] exI[of _ r1] exI[of _ d2] exI[of _ r2] exI[of _ scrapedAds]) auto
  qed
qed

subsection \<open>The row a merge leaves under an identifier\<close>

lemma notin_image_neq: "y \<notin> f ` S \<Longrightarrow> x \<in> S \<Longrightarrow> f x \<noteq> y"
  by auto

lemma find_map_same:
  "(\<And>x. P (f x) = P x) \<Longrightarrow> find P (map f xs) = map_option f (find P xs)"
  by (induction xs) auto

lemma find_append_new:
  "find P (xs @ [y]) = (case find P xs of Some x \<Rightarrow> Some x | None \<Rightarrow> if P y then Some y else None)"
  by (induction xs) auto

lemma find_cong_filter:
  "filter P xs = filter P ys \<Longrightarrow> find P xs = find P ys"
  by (simp add: find_filter_conv)

text \<open>
  The row a successful merge leaves under the identifier of an ad: the stored row
  updated, or the new row, whose conversions to strings have then succeeded.
\<close>

lemma mergeAd_find:
  assumes "mergeAd e brandId weekStart today ad d = (d', Inr p)"
  shows "find (\<lambda>x. ad_id x = c_ad_id ad) (ad_vault d') =
           (case find (\<lambda>x. ad_id x = c_ad_id ad) (ad_vault d) of
              Some ex \<Rightarrow> Some (updateRow today (nextWeeks (tz e) weekStart ex) ad ex)
            | None \<Rightarrow> (case newRow (js e) brandId today ad of Inr row \<Rightarrow> Some row | Inl err \<Rightarrow> None))
         \<and> find (\<lambda>x. ad_id x = c_ad_id ad) (ad_vault d') \<noteq> None"
proof (cases "find (\<lambda>x. ad_id x = c_ad_id ad) (ad_vault d)")
  case None
  with assms obtain row where row: "newRow (js e) brandId today ad = Inr row"
    and v: "ad_vault d' = ad_vault d @ [row]"
    by (auto simp: mergeAd_def guard_def recordSnapshot_def split: if_splits sum.splits)
  from None v newRow_fields(1)[OF row] have "find (\<lambda>x. ad_id x = c_ad_id ad) (ad_vault d') = Some row"
    by (simp add: find_append_new)
  with None row show ?thesis by simp
next
  case (Some ex)
  with assms have "ad_vault d' = map (updateRow today (nextWeeks (tz e) weekStart ex) ad) (ad_vault d)"
    by (auto simp: mergeAd_def guard_def recordSnapshot_def Let_def split: if_splits)
  moreover have "\<And>x. (ad_id (updateRow today (nextWeeks (tz e) weekStart ex) ad x) = c_ad_id ad) = (ad_id x = c_ad_id ad)"
    by (simp add: updateRow_def)
  ultimately show ?thesis using Some
    by (simp add: find_map_same[where P="\<lambda>x. ad_id x = c_ad_id ad"])
qed

lemma mergeAll_find:
  assumes "mergeAll e brandId weekStart today ads d acc = (d', Inr ps)"
    and "distinct (map c_ad_id ads)" and "ad \<in> set ads"
  shows "find (\<lambda>x. ad_id x = c_ad_id ad) (ad_vault d') =
           (case find (\<lambda>x. ad_id x = c_ad_id ad) (ad_vault d) of
              Some ex \<Rightarrow> Some (updateRow today (nextWeeks (tz e) weekStart ex) ad ex)
            | None \<Rightarrow> (case newRow (js e) brandId today ad of Inr row \<Rightarrow> Some row | Inl err \<Rightarrow> None))
         \<and> find (\<lambda>x. ad_id x = c_ad_id ad) (ad_vault d') \<noteq> None"
  using assms
proof (induction ads arbitrary: d acc)
  case Nil
  then show ?case by simp
next
  case (Cons a ads)
  obtain d1 r1 where m: "mergeAd e brandId weekStart today a d = (d1, r1)"
    by (cases "mergeAd e brandId weekStart today a d")
  with Cons.prems(1) obtain p where r1: "r1 = Inr p"
    and rest: "mergeAll e brandId weekStart today ads d1 (acc @ [p]) = (d', Inr ps)"
    by (cases r1) auto
  show ?case
  proof (cases "ad = a")
    case True
    from Cons.prems(2) True have "c_ad_id ad \<notin> c_ad_id ` set ads" by simp
    then have "\<forall>x \<in> set ads. \<not> (c_ad_id x = c_ad_id ad)" by (blast dest: notin_image_neq)
    from mergeAll_frame[where Q="\<lambda>i. i = c_ad_id ad", OF rest this]
    have eq: "find (\<lambda>x. ad_id x = c_ad_id ad) (ad_vault d') = find (\<lambda>x. ad_id x = c_ad_id ad) (ad_vault d1)"
      by (intro find_cong_filter) simp
    show ?thesis unfolding eq unfolding True by (rule mergeAd_find[OF m[unfolded r1]])
  next
    case False
    with Cons.prems(3) have mem: "ad \<in> set ads" by simp
    from Cons.prems(2) have "c_ad_id a \<notin> c_ad_id ` set ads" by simp
    from notin_image_neq[OF this mem] have "\<not> (c_ad_id a = c_ad_id ad)" by simp
    from mergeAd_frame(1)[where Q="\<lambda>i. i = c_ad_id ad", OF m this]
    have eq: "find (\<lambda>x. ad_id x = c_ad_id ad) (ad_vault d1) = find (\<lambda>x. ad_id x = c_ad_id ad) (ad_vault d)"
      by (intro find_cong_filter) simp
    from Cons.prems(2) have "distinct (map c_ad_id ads)" by simp
    from Cons.IH[OF rest this mem] show ?thesis unfolding eq .
  qed
qed

lemma process_find:
  assumes run: "processScrapedAds e brandId scrapedAds d = (d', Inr ps)"
    and reg: "brandId \<in> b_id ` set (brands d)"
    and dist: "distinct (map c_ad_id scrapedAds)"
    and mem: "ad \<in> set scrapedAds"
  shows "find (\<lambda>x. ad_id x = c_ad_id ad) (ad_vault d') =
           (case find (\<lambda>x. ad_id x = c_ad_id ad) (ad_vault d) of
              Some ex \<Rightarrow> Some (updateRow (utcDay (now e)) (nextWeeks (tz e) (getWeekStart (tz e) (now e)) ex) ad ex)
            | None \<Rightarrow> (case newRow (js e) brandId (utcDay (now e)) ad of Inr row \<Rightarrow> Some row | Inl err \<Rightarrow> None))
         \<and> find (\<lambda>x. ad_id x = c_ad_id ad) (ad_vault d') \<noteq> None"
proof -
  from process_shape[OF run] reg obtain d1 d2 where
    c: "cleanup e brandId (map c_ad_id scrapedAds) d = (d1, Inr ())" and
    m: "mergeAll e brandId (getWeekStart (tz e) (now e)) (utcDay (now e)) scrapedAds d1 [] = (d2, Inr ps)" and
    v: "ad_vault d' = ad_vault d2"
    by auto
  have "filter (\<lambda>x. ad_id x = c_ad_id ad) (filter (\<lambda>r. \<not> staleAd brandId (map c_ad_id scrapedAds) r) (ad_vault d))
          = filter (\<lambda>x. ad_id x = c_ad_id ad) (ad_vault d)"
    using mem by (auto simp: staleAd_def intro!: filter_cong)
  with cleanup_shape[OF c] have "filter (\<lambda>x. ad_id x = c_ad_id ad) (ad_vault d1) = filter (\<lambda>x. ad_id x = c_ad_id ad) (ad_vault d)"
    by auto
  then have eq: "find (\<lambda>x. ad_id x = c_ad_id ad) (ad_vault d1) = find (\<lambda>x. ad_id x = c_ad_id ad) (ad_vault d)"
    by (rule find_cong_filter)
  from mergeAll_find[OF m dist mem] show ?thesis unfolding eq v .
qed

subsection \<open>Deletion and bookmarks\<close>

text \<open>
  C10. With an empty batch \<open>processScrapedAds\<close> deletes nothing: whatever fails or
  succeeds, the stored ads and the weekly snapshots it leaves behind are those it found.
\<close>

theorem empty_batch_deletes_nothing:
  "ad_vault (fst (processScrapedAds e brandId [] d)) = ad_vault d
   \<and> weekly_snapshots (fst (processScrapedAds e brandId [] d)) = weekly_snapshots d"
  by (simp add: processScrapedAds_def guard_def cleanup_def touchBrand_def)

text \<open>
  C4, as stated, fails on the empty batch: the stored ad \<open>old\<close> of brand 1 is not
  bookmarked and is not in the batch, the call succeeds, and the ad is still stored.
\<close>

theorem stale_kept_on_empty_batch_counterexample:
  "exStale \<in> set (ad_vault exDbStored) \<and> brand_id exStale = 1 \<and> bookmarked exStale = Some 0
   \<and> snd (processScrapedAds (exEnv (\<lambda>x. False)) 1 [] exDbStored) = Inr []
   \<and> exStale \<in> set (ad_vault (fst (processScrapedAds (exEnv (\<lambda>x. False)) 1 [] exDbStored)))"
  by code_simp

text \<open>
  C4, amended. Let \<open>r\<close> be a stored ad whose \<open>ad_id\<close> is not in the batch. If \<open>r\<close>
  belongs to the brand and is not bookmarked (\<open>0\<close> or \<open>NULL\<close>), the batch is not empty,
  the brand is registered and the call succeeds, then \<open>r\<close> is gone and no weekly
  snapshot row with its \<open>ad_id\<close> is left. Wherever the call stops, such an \<open>r\<close> is
  never gone while a snapshot row of it is left: the snapshot rows go first. If \<open>r\<close> is
  bookmarked it is still stored, unchanged, and no other row has taken its \<open>ad_id\<close>,
  whatever the outcome of the call.
\<close>

theorem stale_deleted_bookmarked_kept:
  assumes run: "processScrapedAds e brandId scrapedAds d = (d', res)"
    and r: "r \<in> set (ad_vault d)"
    and absent: "ad_id r \<notin> c_ad_id ` set scrapedAds"
  shows "(brand_id r = brandId \<and> (bookmarked r = Some 0 \<or> bookmarked r = None)
            \<and> scrapedAds \<noteq> [] \<and> brandId \<in> b_id ` set (brands d) \<and> res = Inr ps
          \<longrightarrow> r \<notin> set (ad_vault d') \<and> (\<forall>s \<in> set (weekly_snapshots d'). ws_ad_id s \<noteq> ad_id r))
       \<and> (brand_id r = brandId \<and> (bookmarked r = Some 0 \<or> bookmarked r = None) \<and> r \<notin> set (ad_vault d')
          \<longrightarrow> (\<forall>s \<in> set (weekly_snapshots d'). ws_ad_id s \<noteq> ad_id r))
       \<and> (bookmarked r \<noteq> Some 0 \<and> bookmarked r \<noteq> None
          \<longrightarrow> r \<in> set (ad_vault d') \<and> (\<forall>x \<in> set (ad_vault d'). ad_id x = ad_id r \<longrightarrow> x \<in> set (ad_vault d)))"
proof -
  let ?ids = "map c_ad_id scrapedAds"
  let ?stale = "staleAd brandId ?ids"
  from process_shape[OF run] consider
      (skipped) "d' = d" "res = Inl StorageError \<or> brandId \<notin> b_id ` set (brands d)"
    | (ran) d1 r1 d2 r2 ads where
        "cleanup e brandId ?ids d = (d1, r1)"
        "mergeAll e brandId (getWeekStart (tz e) (now e)) (utcDay (now e)) ads d1 [] = (d2, r2)"
        "set ads \<subseteq> set scrapedAds"
        "ad_vault d' = ad_vault d2" "weekly_snapshots d' = weekly_snapshots d2"
        "\<forall>ps. res = Inr ps \<longrightarrow> r1 = Inr () \<and> r2 = Inr ps \<and> ads = scrapedAds"
    by blast
  then show ?thesis
  proof cases
    case skipped
    with r show ?thesis by auto
  next
    case ran
    note c = ran(1) and m = ran(2) and sub = ran(3) and v = ran(4) and w = ran(5) and ok = ran(6)
    have "\<forall>a \<in> set ads. \<not> (c_ad_id a = ad_id r)"
    proof
      fix a assume "a \<in> set ads"
      with sub have "c_ad_id a \<in> c_ad_id ` set scrapedAds" by auto
      with absent show "\<not> (c_ad_id a = ad_id r)" by auto
    qed
    from mergeAll_frame[where Q="\<lambda>i. i = ad_id r", OF m this]
    have fv: "filter (\<lambda>x. ad_id x = ad_id r) (ad_vault d') = filter (\<lambda>x. ad_id x = ad_id r) (ad_vault d1)"
      and fw: "filter (\<lambda>s. ws_ad_id s = ad_id r) (weekly_snapshots d') = filter (\<lambda>s. ws_ad_id s = ad_id r) (weekly_snapshots d1)"
      using v w by auto
    have mem: "x \<in> set (ad_vault d') \<longleftrightarrow> x \<in> set (ad_vault d1)" if "ad_id x = ad_id r" for x
    proof -
      have "x \<in> set (filter (\<lambda>x. ad_id x = ad_id r) (ad_vault d')) \<longleftrightarrow> x \<in> set (filter (\<lambda>x. ad_id x = ad_id r) (ad_vault d1))"
        by (simp only: fv)
      with that show ?thesis by simp
    qed
    have snap: "(\<forall>s \<in> set (weekly_snapshots d'). ws_ad_id s \<noteq> ad_id r) \<longleftrightarrow> (\<forall>s \<in> set (weekly_snapshots d1). ws_ad_id s \<noteq> ad_id r)"
    proof -
      have "set (filter (\<lambda>s. ws_ad_id s = ad_id r) (weekly_snapshots d')) = set (filter (\<lambda>s. ws_ad_id s = ad_id r) (weekly_snapshots d1))"
        by (simp only: fw)
      then show ?thesis by auto
    qed
    note sh = cleanup_shape[OF c]
    have stale_gone: "\<forall>s \<in> set (weekly_snapshots d1). ws_ad_id s \<noteq> ad_id r"
      if st: "?stale r" and gone: "r \<notin> set (ad_vault d1)"
    proof -
      from sh gone r have "weekly_snapshots d1 = filter (\<lambda>s. ws_ad_id s \<notin> set (staleIds brandId ?ids d)) (weekly_snapshots d)"
        by auto
      moreover from st r have "ad_id r \<in> set (staleIds brandId ?ids d)" by (auto simp: staleIds_def)
      ultimately show ?thesis by auto
    qed
    have isstale: "?stale r" if "brand_id r = brandId" "bookmarked r = Some 0 \<or> bookmarked r = None"
      using that absent by (auto simp: staleAd_def)
    have p1: "r \<notin> set (ad_vault d') \<and> (\<forall>s \<in> set (weekly_snapshots d'). ws_ad_id s \<noteq> ad_id r)"
      if a: "brand_id r = brandId" "bookmarked r = Some 0 \<or> bookmarked r = None"
        and ne: "scrapedAds \<noteq> []" and res: "res = Inr ps"
    proof -
      from ok res have "r1 = Inr ()" by simp
      with sh ne have "ad_vault d1 = filter (\<lambda>r. \<not> ?stale r) (ad_vault d)" by auto
      with isstale[OF a] have g: "r \<notin> set (ad_vault d1)" by simp
      with stale_gone[OF isstale[OF a]] mem[of r] snap show ?thesis by simp
    qed
    have p2: "\<forall>s \<in> set (weekly_snapshots d'). ws_ad_id s \<noteq> ad_id r"
      if a: "brand_id r = brandId" "bookmarked r = Some 0 \<or> bookmarked r = None" and g: "r \<notin> set (ad_vault d')"
    proof -
      from g mem[of r] have "r \<notin> set (ad_vault d1)" by simp
      with stale_gone[OF isstale[OF a]] snap show ?thesis by simp
    qed
    have p3: "r \<in> set (ad_vault d') \<and> (\<forall>x \<in> set (ad_vault d'). ad_id x = ad_id r \<longrightarrow> x \<in> set (ad_vault d))"
      if b: "bookmarked r \<noteq> Some 0" "bookmarked r \<noteq> None"
    proof -
      from b have "\<not> ?stale r" by (simp add: staleAd_def)
      with sh r have "r \<in> set (ad_vault d1)" by auto
      moreover from sh have "set (ad_vault d1) \<subseteq> set (ad_vault d)" by auto
      ultimately show ?thesis using mem by auto
    qed
    from p1 p2 p3 show ?thesis by blast
  qed
qed

theorem stale_deleted_bookmarked_kept_witness:
  "exStale \<notin> set (ad_vault (fst (processScrapedAds (exEnv (\<lambda>x. False)) 1 [exCanonical ''a1'' 1] exDbStored)))
   \<and> ''old'' \<notin> ws_ad_id ` set (weekly_snapshots (fst (processScrapedAds (exEnv (\<lambda>x. False)) 1 [exCanonical ''a1'' 1] exDbStored)))
   \<and> exKept \<in> set (ad_vault (fst (processScrapedAds (exEnv (\<lambda>x. False)) 1 [exCanonical ''a1'' 1] exDbStored)))"
proof -
  let ?run = "processScrapedAds (exEnv (\<lambda>x. False)) 1 [exCanonical ''a1'' 1] exDbStored"
  have ok: "\<not> isl (snd ?run)" by code_simp
  have run: "?run = (fst ?run, snd ?run)" by simp
  have res: "snd ?run = Inr (projr (snd ?run))" using ok by simp
  have s_in: "exStale \<in> set (ad_vault exDbStored)" and k_in: "exKept \<in> set (ad_vault exDbStored)"
    by (simp_all add: exDbStored_def)
  have s_abs: "ad_id exStale \<notin> c_ad_id ` set [exCanonical ''a1'' 1]"
    and k_abs: "ad_id exKept \<notin> c_ad_id ` set [exCanonical ''a1'' 1]"
    by code_simp+
  have s_facts: "brand_id exStale = 1" "bookmarked exStale = Some 0 \<or> bookmarked exStale = None"
    "ad_id exStale = ''old''"
    by code_simp+
  have k_facts: "bookmarked exKept \<noteq> Some 0" "bookmarked exKept \<noteq> None"
    by (simp_all add: exKept_def)
  have reg: "(1::int) \<in> b_id ` set (brands exDbStored)" by (simp add: exDbStored_def)
  from stale_deleted_bookmarked_kept[OF run s_in s_abs, of "projr (snd ?run)"] s_facts reg res
  have "exStale \<notin> set (ad_vault (fst ?run)) \<and> (\<forall>s \<in> set (weekly_snapshots (fst ?run)). ws_ad_id s \<noteq> ''old'')"
    by simp
  moreover from stale_deleted_bookmarked_kept[OF run k_in k_abs, of "projr (snd ?run)"] k_facts
  have "exKept \<in> set (ad_vault (fst ?run))" by simp
  ultimately show ?thesis by auto
qed

subsection \<open>Longevity\<close>

text \<open>
  What \<open>processScrapedAds\<close> does to the counter. After a successful call for a
  registered brand on a batch with pairwise different identifiers, for every ad of the
  batch: if the week-start the code computes from the stored \<open>last_seen\<close> is not the
  week-start it computes for the current instant, \<open>weeks_in_top10\<close> is its old value
  plus one, \<open>first_seen\<close> is kept and \<open>last_seen\<close> is today; if no ad with its
  identifier was stored, the stored ad is new, with \<open>first_seen = last_seen = today\<close>,
  \<open>weeks_in_top10 = 1\<close> and the five tags \<open>NULL\<close>.
\<close>

lemma increment_under_the_week_test:
  assumes run: "processScrapedAds e brandId scrapedAds d = (d', Inr ps)"
    and reg: "brandId \<in> b_id ` set (brands d)"
    and dist: "distinct (map c_ad_id scrapedAds)"
    and mem: "ad \<in> set scrapedAds"
  shows "(\<forall>r ls. find (\<lambda>x. ad_id x = c_ad_id ad) (ad_vault d) = Some r \<and> last_seen r = Some ls
            \<and> getWeekStart (tz e) (localMidnight (tz e) ls) \<noteq> getWeekStart (tz e) (now e)
          \<longrightarrow> (\<exists>r'. find (\<lambda>x. ad_id x = c_ad_id ad) (ad_vault d') = Some r'
                  \<and> weeks_in_top10 r' = weeks_in_top10 r + 1
                  \<and> first_seen r' = first_seen r
                  \<and> last_seen r' = Some (utcDay (now e))))
       \<and> (find (\<lambda>x. ad_id x = c_ad_id ad) (ad_vault d) = None
          \<longrightarrow> (\<exists>r'. find (\<lambda>x. ad_id x = c_ad_id ad) (ad_vault d') = Some r'
                  \<and> first_seen r' = Some (utcDay (now e))
                  \<and> last_seen r' = Some (utcDay (now e))
                  \<and> weeks_in_top10 r' = 1
                  \<and> ai_asset_type r' = None \<and> ai_visual_format r' = None \<and> ai_messaging_angle r' = None
                  \<and> ai_hook_tactic r' = None \<and> ai_offer_type r' = None))"
proof -
  note pf = process_find[OF run reg dist mem]
  have a: "\<exists>r'. find (\<lambda>x. ad_id x = c_ad_id ad) (ad_vault d') = Some r'
                  \<and> weeks_in_top10 r' = weeks_in_top10 r + 1
                  \<and> first_seen r' = first_seen r
                  \<and> last_seen r' = Some (utcDay (now e))"
    if "find (\<lambda>x. ad_id x = c_ad_id ad) (ad_vault d) = Some r" "last_seen r = Some ls"
       "getWeekStart (tz e) (localMidnight (tz e) ls) \<noteq> getWeekStart (tz e) (now e)" for r ls
  proof -
    from that(1) have "ad_id r = c_ad_id ad" by (auto simp: find_Some_iff)
    with pf that show ?thesis by (simp add: updateRow_def nextWeeks_def)
  qed
  have b: "\<exists>r'. find (\<lambda>x. ad_id x = c_ad_id ad) (ad_vault d') = Some r'
                  \<and> first_seen r' = Some (utcDay (now e))
                  \<and> last_seen r' = Some (utcDay (now e))
                  \<and> weeks_in_top10 r' = 1
                  \<and> ai_asset_type r' = None \<and> ai_visual_format r' = None \<and> ai_messaging_angle r' = None
                  \<and> ai_hook_tactic r' = None \<and> ai_offer_type r' = None"
    if none: "find (\<lambda>x. ad_id x = c_ad_id ad) (ad_vault d) = None"
  proof -
    from pf none obtain row where row: "newRow (js e) brandId (utcDay (now e)) ad = Inr row"
      and f: "find (\<lambda>x. ad_id x = c_ad_id ad) (ad_vault d') = Some row"
      by (cases "newRow (js e) brandId (utcDay (now e)) ad") auto
    from f newRow_fields[OF row] show ?thesis by simp
  qed
  from a b show ?thesis by blast
qed

text \<open>
  On this path a stored ad keeps its count when the week-start the code computes from
  its \<open>last_seen\<close> is the current week-start.
\<close>

lemma same_week_keeps_count:
  assumes run: "processScrapedAds e brandId scrapedAds d = (d', Inr ps)"
    and reg: "brandId \<in> b_id ` set (brands d)"
    and dist: "distinct (map c_ad_id scrapedAds)"
    and mem: "ad \<in> set scrapedAds"
    and old: "find (\<lambda>x. ad_id x = c_ad_id ad) (ad_vault d) = Some r"
    and seen: "last_seen r = Some ls"
    and week: "getWeekStart (tz e) (localMidnight (tz e) ls) = getWeekStart (tz e) (now e)"
  shows "\<exists>r'. find (\<lambda>x. ad_id x = c_ad_id ad) (ad_vault d') = Some r' \<and> weeks_in_top10 r' = weeks_in_top10 r"
proof -
  from old have "ad_id r = c_ad_id ad" by (auto simp: find_Some_iff)
  with process_find[OF run reg dist mem] old seen week show ?thesis
    by (simp add: updateRow_def nextWeeks_def)
qed

text \<open>
  On a server whose local time is UTC the week-starts the code computes are those of the
  week boundary rule: of the stored \<open>last_seen\<close> and of today, the date the call writes.
\<close>

lemma getWeekStart_utc:
  "getWeekStart 0 t = specWeekStart (utcDay t)"
  "getWeekStart 0 (localMidnight 0 d) = specWeekStart d"
  by (simp_all add: getWeekStart_def specWeekStart_def localMidnight_def utcDay_def msPerDay_def Let_def)

text \<open>
  \<open>last_seen\<close> is written as a UTC date and read back as a local date. On a server
  ahead of UTC, late on a Sunday (UTC), the week-start computed from the date just
  written is not the current week-start: a second run at the same instant counts again.
\<close>

lemma local_date_read_back_counts_again:
  "map weeks_in_top10 (ad_vault (fst (processScrapedAds exEnvEast 1 [exCanonical ''a1'' 1] exDb))) = [1]
   \<and> map weeks_in_top10 (ad_vault (fst (processScrapedAds exEnvEast 1 [exCanonical ''a1'' 1]
         (fst (processScrapedAds exEnvEast 1 [exCanonical ''a1'' 1] exDb))))) = [2]"
  by code_simp

text \<open>
  C2, where the code departs from it. The server's local time is five hours behind UTC.
  The stored ad \<open>kept\<close> was last seen on 2024-01-03, in the week of Monday 2024-01-01,
  with \<open>weeks_in_top10 = 3\<close>. The cycle runs on Monday 2024-01-08 at 01:00 UTC and
  writes that date as \<open>last_seen\<close>: a date of the week of 2024-01-08. The call succeeds
  and the count is still 3, because the current week-start is computed from the local
  date, Sunday 2024-01-07 (day 19729), while the date written is the UTC date (day 19730).
\<close>

theorem new_week_not_counted_behind_utc:
  "find (\<lambda>x. ad_id x = ''kept'') (ad_vault exDbStored) = Some exKept
   \<and> last_seen exKept = Some 19725 \<and> weeks_in_top10 exKept = 3
   \<and> utcDay (now exEnvWest) = 19730
   \<and> (now exEnvWest + tz exEnvWest) div msPerDay = 19729
   \<and> specWeekStart 19725 = 19723 \<and> specWeekStart 19730 = 19730
   \<and> getWeekStart (tz exEnvWest) (now exEnvWest) = 19723
   \<and> \<not> isl (snd (processScrapedAds exEnvWest 1 [exCanonical ''kept'' 1] exDbStored))
   \<and> map (\<lambda>r. (ad_id r, last_seen r, weeks_in_top10 r))
        (ad_vault (fst (processScrapedAds exEnvWest 1 [exCanonical ''kept'' 1] exDbStored)))
       = [(''kept'', Some 19730, 3)]"
  by code_simp

subsection \<open>Failures\<close>

text \<open>
  When the statements before the loop succeed, the ads \<open>pre\<close> are merged and a
  statement of the next ad is rejected, the call ends there with that error: what it
  leaves behind is the state at the rejected statement, and the ads \<open>post\<close> after the
  failing one are not processed.
\<close>

lemma failure_stops_at_first_failing_ad:
  assumes reg: "brandId \<in> b_id ` set (brands d)"
    and nf: "\<not> fails e SelectBrand"
    and c: "cleanup e brandId (map c_ad_id (pre @ ad # post)) d = (d0, Inr ())"
    and m: "mergeAll e brandId (getWeekStart (tz e) (now e)) (utcDay (now e)) pre d0 [] = (d1, Inr ps)"
    and f: "mergeAd e brandId (getWeekStart (tz e) (now e)) (utcDay (now e)) ad d1 = (d2, Inl err)"
  shows "processScrapedAds e brandId (pre @ ad # post) d = (d2, Inl err)"
  using assms by (simp add: processScrapedAds_def guard_def Let_def mergeAll_append)

text \<open>
  C7, where the code departs from it. The batch holds three new ads and the insert of
  the second is rejected. \<open>processScrapedAds\<close> ends with that error: the first ad stays
  stored, the third ad is never processed, and no report of what succeeded and what
  failed is returned. On the scheduled path, whose loop catches the error of each ad,
  the same rejection leaves the first and the third ad stored.
\<close>

theorem failure_aborts_batch:
  "snd (processScrapedAds (exEnv (\<lambda>x. x = InsertAd ''a2'')) 1
          [exCanonical ''a1'' 1, exCanonical ''a2'' 2, exCanonical ''a3'' 3] exDb) = Inl StorageError
   \<and> map ad_id (ad_vault (fst (processScrapedAds (exEnv (\<lambda>x. x = InsertAd ''a2'')) 1
          [exCanonical ''a1'' 1, exCanonical ''a2'' 2, exCanonical ''a3'' 3] exDb))) = [''a1'']
   \<and> map ad_id (ad_vault (scheduledStore (exEnv (\<lambda>x. x = ReplaceAd ''a2'')) 1
          [exCanonical ''a1'' 1, exCanonical ''a2'' 2, exCanonical ''a3'' 3] exDb)) = [''a1'', ''a3'']"
  by code_simp

section \<open>Properties of the other ingestion path and of the tagging state\<close>

text \<open>
  C1 on the scheduled path. The same one-ad batch is stored twice at the same instant
  into an empty vault: the first run leaves \<open>weeks_in_top10 = 1\<close>, the second, in the
  same week, leaves \<open>2\<close>.
\<close>

theorem scheduled_path_double_counts:
  "map weeks_in_top10 (ad_vault (scheduledStore (exEnv (\<lambda>x. False)) 1 [exCanonical ''a1'' 1] exDb)) = [1]
   \<and> map weeks_in_top10 (ad_vault (scheduledStore (exEnv (\<lambda>x. False)) 1 [exCanonical ''a1'' 1]
         (scheduledStore (exEnv (\<lambda>x. False)) 1 [exCanonical ''a1'' 1] exDb))) = [2]"
  by code_simp

text \<open>
  C8 on the query for untagged ads. A stored ad with one tag out of five is analysed
  again by \<open>analyzeAdCreative\<close>, yet the query that feeds the batch analysis and the
  count of untagged ads leaves it out.
\<close>

theorem partial_tags_not_in_untagged_set:
  "\<not> alreadyAnalyzed exPartial
   \<and> exPartial \<notin> set (unanalyzedAds \<lparr>ad_vault = [exPartial], weekly_snapshots = [], brands = []\<rparr>)"
  by code_simp

end
